theory Spec2Isabelle
  imports Main "HOL-Library.AList" "HOL-Library.Sublist"
begin

section \<open>Data model\<close>

text \<open>
  The library drives a Rancher in-service upgrade over a REST API
  (\<^verbatim>\<open>src/lib/RancherAPI.js\<close>). JavaScript objects used as dictionaries are
  association lists whose keys appear in the order JavaScript enumerates them (array
  indices ascending, then the other keys in the order of their creation); a property
  that may be \<^verbatim>\<open>undefined\<close> is an \<open>option\<close>. The values of an
  environment are numbers, strings and booleans.
\<close>

datatype jsval = JNum int | JStr string | JBool bool

type_synonym env = "(string \<times> jsval) list"

record launchConfig =
  imageUuid :: string
  lc_environment :: "env option"

record service =
  name :: string
  state :: string
  launchConfig :: launchConfig
  secondaryLaunchConfigs :: "launchConfig list"
  actions :: "(string \<times> string) list"

text \<open>The options object of \<^verbatim>\<open>inServiceUpgrade\<close>; every property may be missing.\<close>

record request =
  serviceName :: "string option"
  imageRepo :: "string option"
  imageTag :: "string option"
  environment :: "env option"
  batchSize :: "int option"
  intervalMillis :: "int option"
  startFirst :: "bool option"

text \<open>The body of the upgrade action, \<^verbatim>\<open>{ inServiceStrategy : { ... } }\<close>.\<close>

record strategy =
  st_batchSize :: int
  st_intervalMillis :: int
  st_startFirst :: bool
  st_launchConfig :: launchConfig
  st_secondaryLaunchConfigs :: "launchConfig list"

text \<open>The constructor's options, with the three timing settings in milliseconds.\<close>

record config =
  endpoint :: string
  statusCheckFrequency :: int
  serviceActiveTimeout :: int
  serviceUpgradedTimeout :: int

subsection \<open>Failures\<close>

text \<open>
  The code rejects its promises with message strings; each constructor stands for one
  of them, under the name the specification gives the failure:
  \<^item> \<open>ValidationError m\<close>: \<^verbatim>\<open>"Must specify options.serviceName"\<close> or
    \<^verbatim>\<open>"Must specify options.imageRepo"\<close> (the message is \<open>m\<close>);
  \<^item> \<open>NotFoundError\<close>: \<^verbatim>\<open>"getService: Rancher service not found."\<close>;
  \<^item> \<open>PreconditionError s\<close>: \<^verbatim>\<open>"Service is not in active status. (s). Cannot proceed."\<close>;
  \<^item> \<open>UnexpectedStateError s\<close>:
    \<^verbatim>\<open>"unexpected status (s) when waiting for upgrade to complete."\<close>;
  \<^item> \<open>TimeoutError ph\<close>: \<^verbatim>\<open>"Timeout waiting for service to upgrade. Upgrade failed!"\<close>
    and \<^verbatim>\<open>"Timeout waiting for service to activate. Upgrade failed!"\<close>;
  \<^item> \<open>TypeError\<close>: the exception JavaScript throws when a property of
    \<^verbatim>\<open>undefined\<close> is read, which rejects the promise whose callback threw;
  \<^item> \<open>TransportError\<close>: the rejection of the HTTP request itself.
\<close>

datatype phase = UpgradedWait | ActiveWait

datatype error =
    ValidationError string
  | NotFoundError
  | PreconditionError string
  | UnexpectedStateError string
  | TimeoutError phase
  | TypeError
  | TransportError

text \<open>
  A promise resolves, rejects or never settles. \<open>Pending\<close> is the promise of a
  request that the platform never answers.
\<close>

datatype 'a outcome = Resolved 'a | Rejected error | Pending

subsection \<open>The outside world\<close>

text \<open>
  What the HTTP request gives back: it fails (\<open>Failed\<close>, the request promise
  rejects) or it yields a parsed body. A body is \<^verbatim>\<open>null\<close>/\<^verbatim>\<open>undefined\<close>
  (\<open>NoBody\<close>), a collection \<^verbatim>\<open>{ data : [...] }\<close>, or a single resource
  without a \<^verbatim>\<open>data\<close> property.
\<close>

datatype body = NoBody | Collection "service list" | Resource service

datatype response = Failed | Body body

record reply =
  latency :: nat
  response :: response

datatype http_method = GET | POST

datatype params = Query string | Strategy strategy | Empty

text \<open>One HTTP request as issued, with the clock reading when it was issued.\<close>

record call =
  c_method :: http_method
  c_uri :: string
  c_params :: params
  c_time :: int

text \<open>
  The world threaded through the code: the wall clock (\<^verbatim>\<open>Date.now()\<close>), the
  replies the platform will give to the coming requests, in order, and the requests
  issued so far. A request finding no reply left is never answered.
\<close>

record world =
  now :: int
  script :: "reply list"
  calls :: "call list"

section \<open>The code\<close>

text \<open>JavaScript truthiness of an optional string: missing and empty are both falsy.\<close>

definition truthy :: "string option \<Rightarrow> bool" where
  "truthy s = (case s of None \<Rightarrow> False | Some v \<Rightarrow> v \<noteq> [])"

text \<open>
  \<^verbatim>\<open>DELAY(time)\<close> resolves after \<^verbatim>\<open>setTimeout(fulfill, time)\<close>. Node sets a delay
  below 1 or above \<open>2^31 - 1\<close> to 1.
\<close>

definition DELAY :: "int \<Rightarrow> world \<Rightarrow> world" where
  "DELAY time w =
     w\<lparr>now := now w + (if time < 1 \<or> 2147483647 < time then 1 else time)\<rparr>"

text \<open>
  The two things a request does to the world: it is issued (and recorded), and it is
  answered by the next scripted reply after that reply's latency.
\<close>

definition issue :: "call \<Rightarrow> world \<Rightarrow> world" where
  "issue c w = w\<lparr>calls := calls w @ [c]\<rparr>"

definition settle :: "reply \<Rightarrow> world \<Rightarrow> world" where
  "settle r w = w\<lparr>now := now w + int (latency r), script := tl (script w)\<rparr>"

text \<open>The test \<^verbatim>\<open>path.match(/^https?:\/\//)\<close> of \<^verbatim>\<open>_apiRequest\<close>.\<close>

definition is_absolute :: "string \<Rightarrow> bool" where
  "is_absolute path = (prefix ''http://'' path \<or> prefix ''https://'' path)"

text \<open>The \<^verbatim>\<open>requestOptions\<close> of \<^verbatim>\<open>_apiRequest\<close>, stamped with the clock.\<close>

definition requestOptions :: "config \<Rightarrow> string \<Rightarrow> http_method \<Rightarrow> params \<Rightarrow> world \<Rightarrow> call" where
  "requestOptions cfg path meth ps w =
     \<lparr>c_method = meth,
      c_uri = (if is_absolute path then path else endpoint cfg @ ''/'' @ path),
      c_params = ps,
      c_time = now w\<rparr>"

text \<open>
  \<^verbatim>\<open>_apiRequest (path, method, params)\<close>. An undefined path makes
  \<^verbatim>\<open>path.match\<close> throw. Otherwise the request is issued; its \<^verbatim>\<open>catch\<close>
  handler returns the value of \<^verbatim>\<open>console.log\<close>, which is \<^verbatim>\<open>undefined\<close>, so a
  failed request resolves with no body.
\<close>

definition apiRequest ::
  "config \<Rightarrow> string option \<Rightarrow> http_method \<Rightarrow> params \<Rightarrow> world \<Rightarrow> body outcome \<times> world" where
  "apiRequest cfg path meth ps w =
     (case path of
        None \<Rightarrow> (Rejected TypeError, w)
      | Some p \<Rightarrow>
          let w1 = issue (requestOptions cfg p meth ps w) w
          in (case script w1 of
                [] \<Rightarrow> (Pending, w1)
              | r # rs \<Rightarrow>
                  (case response r of
                     Failed \<Rightarrow> (Resolved NoBody, settle r w1)
                   | Body b \<Rightarrow> (Resolved b, settle r w1))))"

definition get :: "config \<Rightarrow> string option \<Rightarrow> params \<Rightarrow> world \<Rightarrow> body outcome \<times> world" where
  "get cfg path ps w = apiRequest cfg path GET ps w"

definition post :: "config \<Rightarrow> string option \<Rightarrow> params \<Rightarrow> world \<Rightarrow> body outcome \<times> world" where
  "post cfg path ps w = apiRequest cfg path POST ps w"

text \<open>
  \<^verbatim>\<open>getService (name)\<close>: the guard
  \<^verbatim>\<open>!result || !result.data || !result.data.length\<close> rejects, otherwise
  \<^verbatim>\<open>result.data[0]\<close> is the service.
\<close>

definition getService :: "config \<Rightarrow> string \<Rightarrow> world \<Rightarrow> service outcome \<times> world" where
  "getService cfg nm w =
     (case get cfg (Some ''services'') (Query nm) w of
        (Resolved result, w1) \<Rightarrow>
          (case result of
             Collection (svc # others) \<Rightarrow> (Resolved svc, w1)
           | _ \<Rightarrow> (Rejected NotFoundError, w1))
      | (Rejected e, w1) \<Rightarrow> (Rejected e, w1)
      | (Pending, w1) \<Rightarrow> (Pending, w1))"

text \<open>
  \<^verbatim>\<open>startTime = startTime || Date.now()\<close>: a missing or zero start time is falsy.
  The two readings of \<^verbatim>\<open>Date.now()\<close> at the head of a wait function, this one
  and the one of the deadline test, are taken at the same instant.
\<close>

definition or_now :: "int option \<Rightarrow> world \<Rightarrow> int" where
  "or_now startTime w =
     (case startTime of None \<Rightarrow> now w | Some t \<Rightarrow> if t = 0 then now w else t)"

lemma getService_consumes:
  "getService cfg nm w = (Resolved svc, w1) \<Longrightarrow> length (script w1) < length (script w)"
  by (auto simp: getService_def get_def apiRequest_def issue_def settle_def Let_def
           split: list.splits response.splits body.splits)

text \<open>
  \<^verbatim>\<open>waitForActive (serviceName, startTime)\<close> and
  \<^verbatim>\<open>waitForUpgrade (serviceName, startTime)\<close>. Each call is one poll tick: the
  deadline test, then the lookup, then the decision on the state. The recursive call
  passes the start time on; the calls from outside give none. Every tick that goes on
  has consumed a reply, so the recursion ends with the script at the latest.
\<close>

function waitForActive ::
  "config \<Rightarrow> string \<Rightarrow> int option \<Rightarrow> world \<Rightarrow> service outcome \<times> world" where
  "waitForActive cfg serviceName' startTime w =
     (if or_now startTime w + serviceActiveTimeout cfg < now w
      then (Rejected (TimeoutError ActiveWait), w)
      else (case getService cfg serviceName' w of
              (Resolved svc, w1) \<Rightarrow>
                if state svc \<noteq> ''active''
                then waitForActive cfg serviceName' (Some (or_now startTime w))
                       (DELAY (statusCheckFrequency cfg) w1)
                else (Resolved svc, w1)
            | (Rejected e, w1) \<Rightarrow> (Rejected e, w1)
            | (Pending, w1) \<Rightarrow> (Pending, w1)))"
  by pat_completeness auto
termination
  by (relation "measure (\<lambda>(cfg, n, st, w). length (script w))")
     (auto dest: getService_consumes [OF sym] simp: DELAY_def)

function waitForUpgrade ::
  "config \<Rightarrow> string \<Rightarrow> int option \<Rightarrow> world \<Rightarrow> service outcome \<times> world" where
  "waitForUpgrade cfg serviceName' startTime w =
     (if or_now startTime w + serviceUpgradedTimeout cfg < now w
      then (Rejected (TimeoutError UpgradedWait), w)
      else (case getService cfg serviceName' w of
              (Resolved svc, w1) \<Rightarrow>
                if state svc = ''upgrading''
                then waitForUpgrade cfg serviceName' (Some (or_now startTime w))
                       (DELAY (statusCheckFrequency cfg) w1)
                else if state svc = ''upgraded''
                then (case post cfg (map_of (actions svc) ''finishupgrade'') Empty w1 of
                        (Resolved result, w2) \<Rightarrow> waitForActive cfg serviceName' None w2
                      | (Rejected e, w2) \<Rightarrow> (Rejected e, w2)
                      | (Pending, w2) \<Rightarrow> (Pending, w2))
                else (Rejected (UnexpectedStateError (state svc)), w1)
            | (Rejected e, w1) \<Rightarrow> (Rejected e, w1)
            | (Pending, w1) \<Rightarrow> (Pending, w1)))"
  by pat_completeness auto
termination
  by (relation "measure (\<lambda>(cfg, n, st, w). length (script w))")
     (auto dest: getService_consumes [OF sym] simp: DELAY_def)

text \<open>
  The own keys of an ordinary object are enumerated with the array indices first, in
  ascending order, and the other keys after them in the order of their creation. An
  array index is the canonical decimal form of an integer from 0 to \<open>2^32 - 2\<close>.
\<close>

definition digit :: "char \<Rightarrow> int option" where
  "digit = map_of [(CHR ''0'', 0), (CHR ''1'', 1), (CHR ''2'', 2), (CHR ''3'', 3), (CHR ''4'', 4),
                   (CHR ''5'', 5), (CHR ''6'', 6), (CHR ''7'', 7), (CHR ''8'', 8), (CHR ''9'', 9)]"

definition array_index :: "string \<Rightarrow> int option" where
  "array_index k =
     (if k \<noteq> [] \<and> list_all (\<lambda>c. digit c \<noteq> None) k \<and> (hd k \<noteq> CHR ''0'' \<or> k = ''0'')
      then (let n = foldl (\<lambda>n c. 10 * n + (case digit c of None \<Rightarrow> 0 | Some d \<Rightarrow> d)) 0 k
            in if n \<le> 4294967294 then Some n else None)
      else None)"

text \<open>Creating the property \<open>k\<close>, an array index of value \<open>i\<close>, on an object.\<close>

fun insert_index :: "int \<Rightarrow> string \<Rightarrow> jsval \<Rightarrow> env \<Rightarrow> env" where
  "insert_index i k v [] = [(k, v)]"
| "insert_index i k v ((k', v') # obj) =
     (case array_index k' of
        Some j \<Rightarrow> if j < i then (k', v') # insert_index i k v obj else (k, v) # (k', v') # obj
      | None \<Rightarrow> (k, v) # (k', v') # obj)"

text \<open>
  The assignment \<^verbatim>\<open>obj[k] = v\<close> on an object whose prototype is
  \<^verbatim>\<open>Object.prototype\<close>, as an object literal and a parsed JSON object are. An own
  property takes the value and keeps its place. A key the object does not own is
  created, in its place of the enumeration, unless it is \<^verbatim>\<open>__proto__\<close>: that
  assignment reaches the setter of \<^verbatim>\<open>Object.prototype\<close>, which does nothing
  with a value that is a number, a string or a boolean, and no property is created.
\<close>

definition set_property :: "string \<Rightarrow> jsval \<Rightarrow> env \<Rightarrow> env" where
  "set_property k v obj =
     (if k \<in> fst ` set obj then AList.update k v obj
      else if k = ''__proto__'' then obj
      else (case array_index k of
              Some i \<Rightarrow> insert_index i k v obj
            | None \<Rightarrow> obj @ [(k, v)]))"

text \<open>
  \<^verbatim>\<open>Object.assign(target, source)\<close>: every own key of the source, in the order
  of its enumeration, is assigned on the target.
\<close>

definition object_assign :: "env \<Rightarrow> env \<Rightarrow> env" where
  "object_assign target source = fold (\<lambda>(k, v). set_property k v) source target"

text \<open>
  The payload of the upgrade action (lines 132 to 151), with the defaults of lines 116
  to 119: \<^verbatim>\<open>options.environment || {}\<close>, and 1, 30000 and \<^verbatim>\<open>true\<close> for a
  rollout setting whose \<^verbatim>\<open>typeof\<close> is \<^verbatim>\<open>'undefined'\<close>. \<open>repo\<close> is
  \<^verbatim>\<open>options.imageRepo\<close>, which the validation has found truthy.
\<close>

definition image_uuid :: "request \<Rightarrow> string \<Rightarrow> string" where
  "image_uuid options repo =
     (let uuid = ''docker:'' @ repo
      in (case imageTag options of
            None \<Rightarrow> uuid
          | Some tag \<Rightarrow> if tag \<noteq> [] then uuid @ '':'' @ tag else uuid))"

definition merged_environment :: "request \<Rightarrow> service \<Rightarrow> env" where
  "merged_environment options svc =
     object_assign
       (case lc_environment (launchConfig svc) of None \<Rightarrow> [] | Some e \<Rightarrow> e)
       (case environment options of None \<Rightarrow> [] | Some e \<Rightarrow> e)"

definition upgradePayload :: "request \<Rightarrow> string \<Rightarrow> service \<Rightarrow> strategy" where
  "upgradePayload options repo svc =
     \<lparr>st_batchSize = (case batchSize options of None \<Rightarrow> 1 | Some b \<Rightarrow> b),
      st_intervalMillis = (case intervalMillis options of None \<Rightarrow> 30 * 1000 | Some i \<Rightarrow> i),
      st_startFirst = (case startFirst options of None \<Rightarrow> True | Some f \<Rightarrow> f),
      st_launchConfig =
        (launchConfig svc)
          \<lparr>imageUuid := image_uuid options repo,
           lc_environment := Some (merged_environment options svc)\<rparr>,
      st_secondaryLaunchConfigs = secondaryLaunchConfigs svc\<rparr>"

text \<open>\<^verbatim>\<open>options = options || {}\<close>: the object with no property.\<close>

definition no_options :: request where
  "no_options =
     \<lparr>serviceName = None, imageRepo = None, imageTag = None, environment = None,
      batchSize = None, intervalMillis = None, startFirst = None\<rparr>"

text \<open>
  \<^verbatim>\<open>inServiceUpgrade (options)\<close>. After the submission the callback reads
  \<^verbatim>\<open>result.state\<close>, which throws when the result is \<^verbatim>\<open>undefined\<close>.
\<close>

definition inServiceUpgrade ::
  "config \<Rightarrow> request option \<Rightarrow> world \<Rightarrow> service outcome \<times> world" where
  "inServiceUpgrade cfg options0 w =
     (let options = (case options0 of None \<Rightarrow> no_options | Some r \<Rightarrow> r)
      in (case serviceName options of
            None \<Rightarrow> (Rejected (ValidationError ''Must specify options.serviceName''), w)
          | Some nm \<Rightarrow>
        if nm = [] then (Rejected (ValidationError ''Must specify options.serviceName''), w)
        else (case imageRepo options of
            None \<Rightarrow> (Rejected (ValidationError ''Must specify options.imageRepo''), w)
          | Some repo \<Rightarrow>
        if repo = [] then (Rejected (ValidationError ''Must specify options.imageRepo''), w)
        else (case getService cfg nm w of
            (Resolved svc, w1) \<Rightarrow>
              if state svc \<noteq> ''active'' \<and> \<not> truthy (map_of (actions svc) ''upgrade'')
              then (Rejected (PreconditionError (state svc)), w1)
              else (case post cfg (map_of (actions svc) ''upgrade'')
                           (Strategy (upgradePayload options repo svc)) w1 of
                      (Resolved result, w2) \<Rightarrow>
                        (case result of
                           NoBody \<Rightarrow> (Rejected TypeError, w2)
                         | _ \<Rightarrow> waitForUpgrade cfg nm None w2)
                    | (Rejected e, w2) \<Rightarrow> (Rejected e, w2)
                    | (Pending, w2) \<Rightarrow> (Pending, w2))
          | (Rejected e, w1) \<Rightarrow> (Rejected e, w1)
          | (Pending, w1) \<Rightarrow> (Pending, w1)))))"

section \<open>Observing the requests issued\<close>

text \<open>
  The requests of a wait phase are lookups of the service (\<open>polls\<close>); the requests
  that follow the upgraded state are at most one \<^verbatim>\<open>finishupgrade\<close> (a POST with
  an empty body) followed by lookups (\<open>finalized\<close>).
\<close>

definition polls :: "string \<Rightarrow> call list \<Rightarrow> bool" where
  "polls n cs = list_all (\<lambda>c. c_method c = GET \<and> c_params c = Query n) cs"

fun finalized :: "string \<Rightarrow> call list \<Rightarrow> bool" where
  "finalized n [] = True"
| "finalized n (p # rest) = (c_method p = POST \<and> c_params p = Empty \<and> polls n rest)"

text \<open>The POST requests of a log, and the upgrade payloads submitted in it.\<close>

definition posts :: "call list \<Rightarrow> call list" where
  "posts cs = filter (\<lambda>c. c_method c = POST) cs"

fun submitted :: "call list \<Rightarrow> strategy list" where
  "submitted [] = []"
| "submitted (c # cs) =
     (case c_params c of Strategy p \<Rightarrow> p # submitted cs | _ \<Rightarrow> submitted cs)"

section \<open>A scenario\<close>

text \<open>
  The end-to-end scenario of the specification: the service \<open>web\<close>, offering both
  actions, an environment \<open>{A:1, B:2}\<close>, and the request
  \<open>{serviceName: "web", imageRepo: "org/app", imageTag: "v2"}\<close> with the
  environment \<open>{B:3, C:4}\<close>. Every reply takes 100 ms and the clock starts at 1000.
\<close>

definition ex_cfg :: config where
  "ex_cfg = \<lparr>endpoint = ''http://rancher/v1'', statusCheckFrequency = 20000,
     serviceActiveTimeout = 180000, serviceUpgradedTimeout = 180000\<rparr>"

definition ex_svc :: "string \<Rightarrow> service" where
  "ex_svc st =
     \<lparr>name = ''web'', state = st,
      launchConfig = \<lparr>imageUuid = ''docker:org/app:v1'',
                      lc_environment = Some [(''A'', JNum 1), (''B'', JNum 2)]\<rparr>,
      secondaryLaunchConfigs = [],
      actions = [(''upgrade'', ''http://rancher/v1/services/1/?action=upgrade''),
                 (''finishupgrade'', ''http://rancher/v1/services/1/?action=finishupgrade'')]\<rparr>"

definition ex_req :: request where
  "ex_req =
     \<lparr>serviceName = Some ''web'', imageRepo = Some ''org/app'', imageTag = Some ''v2'',
      environment = Some [(''B'', JNum 3), (''C'', JNum 4)],
      batchSize = None, intervalMillis = None, startFirst = None\<rparr>"

definition found :: "service list \<Rightarrow> reply" where
  "found svcs = \<lparr>latency = 100, response = Body (Collection svcs)\<rparr>"

definition ack :: "service \<Rightarrow> reply" where
  "ack svc = \<lparr>latency = 100, response = Body (Resource svc)\<rparr>"

definition failure :: reply where
  "failure = \<lparr>latency = 100, response = Failed\<rparr>"

definition slow :: "nat \<Rightarrow> service list \<Rightarrow> reply" where
  "slow ms svcs = \<lparr>latency = ms, response = Body (Collection svcs)\<rparr>"

definition at_start :: "reply list \<Rightarrow> world" where
  "at_start rs = \<lparr>now = 1000, script = rs, calls = []\<rparr>"

section \<open>One step of each function\<close>

declare waitForActive.simps [simp del] waitForUpgrade.simps [simp del]

lemma apiRequest_empty:
  "script w = [] \<Longrightarrow> apiRequest cfg (Some p) m ps w = (Pending, issue (requestOptions cfg p m ps w) w)"
  by (simp add: apiRequest_def issue_def)

lemma apiRequest_reply:
  "script w = r # rs \<Longrightarrow>
   apiRequest cfg (Some p) m ps w =
     (Resolved (case response r of Failed \<Rightarrow> NoBody | Body b \<Rightarrow> b),
      settle r (issue (requestOptions cfg p m ps w) w))"
  by (simp add: apiRequest_def issue_def split: response.splits)

lemma getService_empty:
  "script w = [] \<Longrightarrow>
   getService cfg nm w = (Pending, issue (requestOptions cfg ''services'' GET (Query nm) w) w)"
  by (simp add: getService_def get_def apiRequest_empty)

lemma getService_reply:
  "script w = r # rs \<Longrightarrow>
   getService cfg nm w =
     (case response r of
        Body (Collection (svc # others)) \<Rightarrow> Resolved svc
      | _ \<Rightarrow> Rejected NotFoundError,
      settle r (issue (requestOptions cfg ''services'' GET (Query nm) w) w))"
  by (simp add: getService_def get_def apiRequest_reply
           split: response.splits body.splits list.splits)

lemma getService_Resolved:
  assumes "getService cfg nm w = (Resolved svc, w1)"
  obtains r rs others where "script w = r # rs"
    and "response r = Body (Collection (svc # others))"
    and "w1 = settle r (issue (requestOptions cfg ''services'' GET (Query nm) w) w)"
proof (cases "script w")
  case Nil
  with assms show ?thesis by (simp add: getService_empty)
next
  case (Cons r rs)
  with assms that show ?thesis
    by (auto simp: getService_reply split: response.splits body.splits list.splits)
qed

lemma getService_outcome:
  "fst (getService cfg nm w) = Pending \<or> fst (getService cfg nm w) = Rejected NotFoundError
   \<or> (\<exists>svc. fst (getService cfg nm w) = Resolved svc)"
  by (cases "script w")
     (auto simp: getService_empty getService_reply split: response.splits body.splits list.splits)

lemma getService_calls:
  "calls (snd (getService cfg nm w)) = calls w @ [requestOptions cfg ''services'' GET (Query nm) w]"
  by (cases "script w") (simp_all add: getService_empty getService_reply issue_def settle_def)

lemma waitForActive_timeout:
  "or_now st w + serviceActiveTimeout cfg < now w \<Longrightarrow>
   waitForActive cfg n st w = (Rejected (TimeoutError ActiveWait), w)"
  by (simp add: waitForActive.simps)

lemma waitForActive_unanswered:
  "\<not> or_now st w + serviceActiveTimeout cfg < now w \<Longrightarrow> script w = [] \<Longrightarrow>
   waitForActive cfg n st w =
     (Pending, issue (requestOptions cfg ''services'' GET (Query n) w) w)"
  by (subst waitForActive.simps) (simp add: getService_empty)

lemma waitForActive_step:
  assumes "\<not> or_now st w + serviceActiveTimeout cfg < now w" and "script w = r # rs"
  shows "waitForActive cfg n st w =
     (let w1 = settle r (issue (requestOptions cfg ''services'' GET (Query n) w) w)
      in case response r of
           Body (Collection (svc # others)) \<Rightarrow>
             if state svc \<noteq> ''active''
             then waitForActive cfg n (Some (or_now st w)) (DELAY (statusCheckFrequency cfg) w1)
             else (Resolved svc, w1)
         | _ \<Rightarrow> (Rejected NotFoundError, w1))"
  using assms
  by (subst waitForActive.simps)
     (simp add: getService_reply split: response.splits body.splits list.splits)

lemma script_step [simp]:
  "script (DELAY t w) = script w" "script (issue c w) = script w"
  "script (settle r w) = tl (script w)"
  by (simp_all add: DELAY_def issue_def settle_def)

lemma calls_step [simp]:
  "calls (DELAY t w) = calls w" "calls (issue c w) = calls w @ [c]"
  "calls (settle r w) = calls w"
  by (simp_all add: DELAY_def issue_def settle_def)

lemma now_step [simp]:
  "now (issue c w) = now w" "now (settle r w) = now w + int (latency r)"
  by (simp_all add: DELAY_def issue_def settle_def)

lemma now_DELAY: "now w < now (DELAY t w)"
  by (simp add: DELAY_def)

lemma waitForActive_outcome:
  "fst (waitForActive cfg n st w) \<in>
     {Pending, Rejected (TimeoutError ActiveWait), Rejected NotFoundError}
       \<union> {Resolved svc | svc. state svc = ''active''}"
proof (induction "script w" arbitrary: w st)
  case Nil
  then show ?case
    by (cases "or_now st w + serviceActiveTimeout cfg < now w")
       (simp_all add: waitForActive_timeout waitForActive_unanswered)
next
  case (Cons r rs)
  show ?case
  proof (cases "or_now st w + serviceActiveTimeout cfg < now w")
    case True
    then show ?thesis by (simp add: waitForActive_timeout)
  next
    case False
    from Cons.hyps(2) have sw: "script w = r # rs" by simp
    define w2 where "w2 = DELAY (statusCheckFrequency cfg)
        (settle r (issue (requestOptions cfg ''services'' GET (Query n) w) w))"
    have "rs = script w2" using sw by (simp add: w2_def)
    from Cons.hyps(1) [OF this, of "Some (or_now st w)"]
    show ?thesis
      by (auto simp: waitForActive_step [OF False sw] Let_def w2_def
               split: response.splits body.splits list.splits)
  qed
qed


lemma or_now_Some: "t \<noteq> 0 \<Longrightarrow> or_now (Some t) w = t"
  by (simp add: or_now_def)

lemma waitForActive_trace:
  "\<exists>cs. calls (snd (waitForActive cfg n st w)) = calls w @ cs \<and>
     (\<forall>c\<in>set cs. c_method c = GET \<and> c_params c = Query n \<and>
        (or_now st w \<noteq> 0 \<longrightarrow> c_time c \<le> or_now st w + serviceActiveTimeout cfg))"
proof (induction "script w" arbitrary: w st)
  case Nil
  then show ?case
    by (cases "or_now st w + serviceActiveTimeout cfg < now w")
       (simp_all add: waitForActive_timeout waitForActive_unanswered requestOptions_def)
next
  case (Cons r rs)
  show ?case
  proof (cases "or_now st w + serviceActiveTimeout cfg < now w")
    case True
    then show ?thesis by (simp add: waitForActive_timeout)
  next
    case False
    from Cons.hyps(2) have sw: "script w = r # rs" by simp
    define g where "g = requestOptions cfg ''services'' GET (Query n) w"
    define w2 where "w2 = DELAY (statusCheckFrequency cfg) (settle r (issue g w))"
    have g: "c_method g = GET" "c_params g = Query n"
      "c_time g \<le> or_now st w + serviceActiveTimeout cfg"
      using False by (simp_all add: g_def requestOptions_def)
    have "rs = script w2" using sw by (simp add: w2_def)
    from Cons.hyps(1) [OF this, of "Some (or_now st w)"]
    obtain cs where cs: "calls (snd (waitForActive cfg n (Some (or_now st w)) w2)) = calls w2 @ cs"
      "\<forall>c\<in>set cs. c_method c = GET \<and> c_params c = Query n \<and>
        (or_now (Some (or_now st w)) w2 \<noteq> 0 \<longrightarrow>
           c_time c \<le> or_now (Some (or_now st w)) w2 + serviceActiveTimeout cfg)"
      by blast
    have w2: "calls w2 = calls w @ [g]" by (simp add: w2_def)
    have *: "\<forall>c\<in>set (g # cs). c_method c = GET \<and> c_params c = Query n \<and>
        (or_now st w \<noteq> 0 \<longrightarrow> c_time c \<le> or_now st w + serviceActiveTimeout cfg)"
      using g cs(2) by (auto simp: or_now_Some)
    have **: "\<forall>c\<in>set [g]. c_method c = GET \<and> c_params c = Query n \<and>
        (or_now st w \<noteq> 0 \<longrightarrow> c_time c \<le> or_now st w + serviceActiveTimeout cfg)"
      using g by simp
    have step: "waitForActive cfg n st w = waitForActive cfg n (Some (or_now st w)) w2
        \<or> snd (waitForActive cfg n st w) = settle r (issue g w)"
      by (simp add: waitForActive_step [OF False sw] Let_def w2_def g_def
               split: response.splits body.splits list.splits)
    then show ?thesis
    proof
      assume "waitForActive cfg n st w = waitForActive cfg n (Some (or_now st w)) w2"
      then have "calls (snd (waitForActive cfg n st w)) = calls w @ (g # cs)"
        using cs(1) w2 by simp
      with * show ?thesis by blast
    next
      assume "snd (waitForActive cfg n st w) = settle r (issue g w)"
      then have "calls (snd (waitForActive cfg n st w)) = calls w @ [g]" by simp
      with ** show ?thesis by blast
    qed
  qed
qed

lemma post_None: "post cfg None ps w = (Rejected TypeError, w)"
  by (simp add: post_def apiRequest_def)

lemma post_empty:
  "script w = [] \<Longrightarrow> post cfg (Some u) ps w = (Pending, issue (requestOptions cfg u POST ps w) w)"
  by (simp add: post_def apiRequest_empty)

lemma post_reply:
  "script w = r # rs \<Longrightarrow>
   post cfg (Some u) ps w =
     (Resolved (case response r of Failed \<Rightarrow> NoBody | Body b \<Rightarrow> b),
      settle r (issue (requestOptions cfg u POST ps w) w))"
  by (simp add: post_def apiRequest_reply)

lemma waitForUpgrade_timeout:
  "or_now st w + serviceUpgradedTimeout cfg < now w \<Longrightarrow>
   waitForUpgrade cfg n st w = (Rejected (TimeoutError UpgradedWait), w)"
  by (simp add: waitForUpgrade.simps)

lemma waitForUpgrade_unanswered:
  "\<not> or_now st w + serviceUpgradedTimeout cfg < now w \<Longrightarrow> script w = [] \<Longrightarrow>
   waitForUpgrade cfg n st w =
     (Pending, issue (requestOptions cfg ''services'' GET (Query n) w) w)"
  by (subst waitForUpgrade.simps) (simp add: getService_empty)

lemma waitForUpgrade_step:
  assumes "\<not> or_now st w + serviceUpgradedTimeout cfg < now w" and "script w = r # rs"
  shows "waitForUpgrade cfg n st w =
     (let w1 = settle r (issue (requestOptions cfg ''services'' GET (Query n) w) w)
      in case response r of
           Body (Collection (svc # others)) \<Rightarrow>
             if state svc = ''upgrading''
             then waitForUpgrade cfg n (Some (or_now st w)) (DELAY (statusCheckFrequency cfg) w1)
             else if state svc = ''upgraded''
             then (case post cfg (map_of (actions svc) ''finishupgrade'') Empty w1 of
                     (Resolved result, w2) \<Rightarrow> waitForActive cfg n None w2
                   | (Rejected e, w2) \<Rightarrow> (Rejected e, w2)
                   | (Pending, w2) \<Rightarrow> (Pending, w2))
             else (Rejected (UnexpectedStateError (state svc)), w1)
         | _ \<Rightarrow> (Rejected NotFoundError, w1))"
  using assms
  by (subst waitForUpgrade.simps)
     (simp add: getService_reply split: response.splits body.splits list.splits)


lemma waitForActive_polls:
  "\<exists>cs. calls (snd (waitForActive cfg n st w)) = calls w @ cs \<and> polls n cs"
  using waitForActive_trace [of cfg n st w] by (auto simp: polls_def list_all_iff)

lemma finish_trace:
  "\<exists>cs. calls (snd (case post cfg a Empty w1 of
                       (Resolved result, w2) \<Rightarrow> waitForActive cfg n None w2
                     | (Rejected e, w2) \<Rightarrow> (Rejected e, w2)
                     | (Pending, w2) \<Rightarrow> (Pending, w2))) = calls w1 @ cs \<and> finalized n cs"
proof (cases a)
  case None
  then show ?thesis by (simp add: post_None)
next
  case (Some u)
  define p where "p = requestOptions cfg u POST Empty w1"
  have p: "c_method p = POST" "c_params p = Empty" by (simp_all add: p_def requestOptions_def)
  show ?thesis
  proof (cases "script w1")
    case Nil
    then have "calls (snd (case post cfg a Empty w1 of
                       (Resolved result, w2) \<Rightarrow> waitForActive cfg n None w2
                     | (Rejected e, w2) \<Rightarrow> (Rejected e, w2)
                     | (Pending, w2) \<Rightarrow> (Pending, w2))) = calls w1 @ [p]"
      by (simp add: Some post_empty p_def)
    moreover have "finalized n [p]" using p by (simp add: polls_def)
    ultimately show ?thesis by blast
  next
    case (Cons r rs)
    obtain cs where cs: "calls (snd (waitForActive cfg n None (settle r (issue p w1))))
         = calls (settle r (issue p w1)) @ cs" "polls n cs"
      using waitForActive_polls by blast
    have "calls (snd (case post cfg a Empty w1 of
                       (Resolved result, w2) \<Rightarrow> waitForActive cfg n None w2
                     | (Rejected e, w2) \<Rightarrow> (Rejected e, w2)
                     | (Pending, w2) \<Rightarrow> (Pending, w2))) = calls w1 @ (p # cs)"
      using cs(1) by (simp add: Some post_reply [OF Cons] p_def)
    moreover have "finalized n (p # cs)" using p cs(2) by simp
    ultimately show ?thesis by blast
  qed
qed

lemma waitForUpgrade_trace:
  "\<exists>gs cs. calls (snd (waitForUpgrade cfg n st w)) = calls w @ gs @ cs \<and> polls n gs \<and>
     (or_now st w \<noteq> 0 \<longrightarrow>
        (\<forall>c\<in>set gs. c_time c \<le> or_now st w + serviceUpgradedTimeout cfg)) \<and>
     finalized n cs"
proof (induction "script w" arbitrary: w st)
  case Nil
  show ?case
  proof (cases "or_now st w + serviceUpgradedTimeout cfg < now w")
    case True
    then have "calls (snd (waitForUpgrade cfg n st w)) = calls w @ [] @ []"
      by (simp add: waitForUpgrade_timeout)
    then show ?thesis by (fastforce simp: polls_def)
  next
    case False
    define g where "g = requestOptions cfg ''services'' GET (Query n) w"
    have "calls (snd (waitForUpgrade cfg n st w)) = calls w @ [g] @ []"
      using Nil False by (simp add: waitForUpgrade_unanswered g_def)
    moreover have "polls n [g]" "c_time g \<le> or_now st w + serviceUpgradedTimeout cfg"
      using False by (simp_all add: polls_def g_def requestOptions_def)
    ultimately show ?thesis by (intro exI [of _ "[g]"] exI [of _ "[]"]) simp
  qed
next
  case (Cons r rs)
  show ?case
  proof (cases "or_now st w + serviceUpgradedTimeout cfg < now w")
    case True
    then have "calls (snd (waitForUpgrade cfg n st w)) = calls w @ [] @ []"
      by (simp add: waitForUpgrade_timeout)
    then show ?thesis by (fastforce simp: polls_def)
  next
    case False
    from Cons.hyps(2) have sw: "script w = r # rs" by simp
    define g where "g = requestOptions cfg ''services'' GET (Query n) w"
    define w1 where "w1 = settle r (issue g w)"
    define w2 where "w2 = DELAY (statusCheckFrequency cfg) w1"
    have g: "polls n [g]" "c_time g \<le> or_now st w + serviceUpgradedTimeout cfg"
      using False by (simp_all add: polls_def g_def requestOptions_def)
    have w1: "calls w1 = calls w @ [g]" by (simp add: w1_def)
    have w2: "calls w2 = calls w @ [g]" by (simp add: w2_def w1)
    have "rs = script w2" using sw by (simp add: w2_def w1_def)
    from Cons.hyps(1) [OF this, of "Some (or_now st w)"]
    obtain gs cs where rec:
      "calls (snd (waitForUpgrade cfg n (Some (or_now st w)) w2)) = calls w2 @ gs @ cs"
      "polls n gs"
      "or_now (Some (or_now st w)) w2 \<noteq> 0 \<longrightarrow>
        (\<forall>c\<in>set gs. c_time c \<le> or_now (Some (or_now st w)) w2 + serviceUpgradedTimeout cfg)"
      "finalized n cs"
      by blast
    let ?res = "waitForUpgrade cfg n st w"
    have "?res = waitForUpgrade cfg n (Some (or_now st w)) w2
      \<or> (\<exists>a. ?res = (case post cfg a Empty w1 of
                       (Resolved result, w2) \<Rightarrow> waitForActive cfg n None w2
                     | (Rejected e, w2) \<Rightarrow> (Rejected e, w2)
                     | (Pending, w2) \<Rightarrow> (Pending, w2)))
      \<or> snd ?res = w1"
      by (simp add: waitForUpgrade_step [OF False sw] Let_def w2_def w1_def g_def
               split: response.splits body.splits list.splits) blast
    then consider (again) "?res = waitForUpgrade cfg n (Some (or_now st w)) w2"
      | (finish) a where "?res = (case post cfg a Empty w1 of
                       (Resolved result, w2) \<Rightarrow> waitForActive cfg n None w2
                     | (Rejected e, w2) \<Rightarrow> (Rejected e, w2)
                     | (Pending, w2) \<Rightarrow> (Pending, w2))"
      | (stop) "snd ?res = w1"
      by blast
    then show ?thesis
    proof cases
      case again
      then have "calls (snd ?res) = calls w @ (g # gs) @ cs" using rec(1) w2 by simp
      moreover have "polls n (g # gs)" using g(1) rec(2) by (simp add: polls_def)
      moreover have "or_now st w \<noteq> 0 \<longrightarrow>
         (\<forall>c\<in>set (g # gs). c_time c \<le> or_now st w + serviceUpgradedTimeout cfg)"
        using g(2) rec(3) by (auto simp: or_now_Some)
      ultimately show ?thesis using rec(4) by blast
    next
      case finish
      with finish_trace [where cfg = cfg and a = a and n = n and ?w1.0 = w1] obtain cs' where
        "calls (snd ?res) = calls w1 @ cs'" "finalized n cs'" by auto
      then have "calls (snd ?res) = calls w @ [g] @ cs'" using w1 by simp
      moreover have "\<forall>c\<in>set [g]. c_time c \<le> or_now st w + serviceUpgradedTimeout cfg"
        using g(2) by simp
      ultimately show ?thesis using g(1) \<open>finalized n cs'\<close> by blast
    next
      case stop
      then have "calls (snd ?res) = calls w @ [g] @ []" using w1 by simp
      moreover have "\<forall>c\<in>set [g]. c_time c \<le> or_now st w + serviceUpgradedTimeout cfg"
        using g(2) by simp
      moreover have "finalized n []" by simp
      ultimately show ?thesis using g(1) by blast
    qed
  qed
qed

section \<open>Facts about the log\<close>

lemma posts_simps [simp]:
  "posts [] = []" "posts (c # cs) = (if c_method c = POST then c # posts cs else posts cs)"
  by (simp_all add: posts_def)

lemma c_method_requestOptions [simp]: "c_method (requestOptions cfg p m ps w) = m"
  by (simp add: requestOptions_def)

lemma posts_append [simp]: "posts (xs @ ys) = posts xs @ posts ys"
  by (simp add: posts_def)

lemma posts_polls: "polls n cs \<Longrightarrow> posts cs = []"
  by (induction cs) (auto simp: polls_def posts_def)

lemma submitted_append [simp]: "submitted (xs @ ys) = submitted xs @ submitted ys"
  by (induction xs) (auto split: params.splits)

lemma submitted_polls: "polls n cs \<Longrightarrow> submitted cs = []"
  by (induction cs) (auto simp: polls_def)

lemma submitted_finalized: "finalized n cs \<Longrightarrow> submitted cs = []"
  using submitted_polls [of n "tl cs"]
  by (cases cs) auto

section \<open>What a session can end with\<close>

lemma finish_outcome:
  "fst (case post cfg a Empty w1 of
          (Resolved result, w2) \<Rightarrow> waitForActive cfg n None w2
        | (Rejected e, w2) \<Rightarrow> (Rejected e, w2)
        | (Pending, w2) \<Rightarrow> (Pending, w2))
     \<in> {Pending, Rejected TypeError, Rejected (TimeoutError ActiveWait), Rejected NotFoundError}
         \<union> {Resolved svc | svc. state svc = ''active''}"
proof (cases a)
  case None
  then show ?thesis by (simp add: post_None)
next
  case (Some u)
  show ?thesis
  proof (cases "script w1")
    case Nil
    then show ?thesis by (simp add: Some post_empty)
  next
    case (Cons r rs)
    from waitForActive_outcome
      [where cfg = cfg and n = n and st = None
         and w = "settle r (issue (requestOptions cfg u POST Empty w1) w1)"]
    show ?thesis by (auto simp: Some post_reply [OF Cons])
  qed
qed

lemma waitForUpgrade_outcome:
  "fst (waitForUpgrade cfg n st w)
     \<in> {Pending, Rejected TypeError, Rejected (TimeoutError UpgradedWait),
         Rejected (TimeoutError ActiveWait), Rejected NotFoundError}
         \<union> {Rejected (UnexpectedStateError s) | s. s \<noteq> ''upgrading'' \<and> s \<noteq> ''upgraded''}
         \<union> {Resolved svc | svc. state svc = ''active''}"
proof (induction "script w" arbitrary: w st)
  case Nil
  then show ?case
    by (cases "or_now st w + serviceUpgradedTimeout cfg < now w")
       (simp_all add: waitForUpgrade_timeout waitForUpgrade_unanswered)
next
  case (Cons r rs)
  show ?case
  proof (cases "or_now st w + serviceUpgradedTimeout cfg < now w")
    case True
    then show ?thesis by (simp add: waitForUpgrade_timeout)
  next
    case False
    from Cons.hyps(2) have sw: "script w = r # rs" by simp
    define w1 where "w1 = settle r (issue (requestOptions cfg ''services'' GET (Query n) w) w)"
    define w2 where "w2 = DELAY (statusCheckFrequency cfg) w1"
    have "rs = script w2" using sw by (simp add: w2_def w1_def)
    note rec = Cons.hyps(1) [OF this, of "Some (or_now st w)"]
    note fin = finish_outcome [where cfg = cfg and ?w1.0 = w1 and n = n]
    show ?thesis
    proof (cases "response r")
      case Failed
      then show ?thesis by (simp add: waitForUpgrade_step [OF False sw])
    next
      case (Body b)
      show ?thesis
      proof (cases b)
        case NoBody
        with Body show ?thesis by (simp add: waitForUpgrade_step [OF False sw])
      next
        case (Resource s)
        with Body show ?thesis by (simp add: waitForUpgrade_step [OF False sw])
      next
        case (Collection svcs)
        show ?thesis
        proof (cases svcs)
          case Nil
          with Body Collection show ?thesis by (simp add: waitForUpgrade_step [OF False sw])
        next
          case (Cons svc others)
          have eq: "waitForUpgrade cfg n st w =
            (if state svc = ''upgrading'' then waitForUpgrade cfg n (Some (or_now st w)) w2
             else if state svc = ''upgraded''
             then (case post cfg (map_of (actions svc) ''finishupgrade'') Empty w1 of
                     (Resolved result, w2) \<Rightarrow> waitForActive cfg n None w2
                   | (Rejected e, w2) \<Rightarrow> (Rejected e, w2)
                   | (Pending, w2) \<Rightarrow> (Pending, w2))
             else (Rejected (UnexpectedStateError (state svc)), w1))"
            using Body Collection Cons
            by (simp add: waitForUpgrade_step [OF False sw] Let_def w1_def w2_def)
          show ?thesis
          proof (cases "state svc = ''upgrading''")
            case True
            with eq rec show ?thesis by simp
          next
            case nu: False
            show ?thesis
            proof (cases "state svc = ''upgraded''")
              case True
              with eq nu fin [where a = "map_of (actions svc) ''finishupgrade''"] show ?thesis
                by auto
            next
              case False
              with eq nu show ?thesis by simp
            qed
          qed
        qed
      qed
    qed
  qed
qed


lemma apiRequest_outcome:
  "fst (apiRequest cfg path m ps w) = Pending \<or> fst (apiRequest cfg path m ps w) = Rejected TypeError
   \<or> (\<exists>b. fst (apiRequest cfg path m ps w) = Resolved b)"
  by (auto simp: apiRequest_def Let_def split: option.splits list.splits response.splits)

lemma waitForUpgrade_no_TransportError:
  "fst (waitForUpgrade cfg n st w) \<noteq> Rejected TransportError"
  using waitForUpgrade_outcome [of cfg n st w] by auto

lemma inServiceUpgrade_no_TransportError:
  "fst (inServiceUpgrade cfg opts w) \<noteq> Rejected TransportError"
proof -
  have g: "getService cfg nm w \<noteq> (Rejected TransportError, w')" for nm w'
    using getService_outcome [of cfg nm w] by auto
  have p: "post cfg a ps w1 \<noteq> (Rejected TransportError, w')" for a ps w1 w'
    using apiRequest_outcome [of cfg a POST ps w1] by (auto simp: post_def)
  show ?thesis
    using waitForUpgrade_no_TransportError
    by (auto simp: inServiceUpgrade_def Let_def g p
             split: option.splits prod.splits outcome.splits body.splits)
qed


lemma waitForUpgrade_finalize:
  assumes "\<not> or_now st w + serviceUpgradedTimeout cfg < now w"
    and "script w = r # r2 # rs2"
    and "response r = Body (Collection (svc # others))"
    and "state svc = ''upgraded''"
    and "map_of (actions svc) ''finishupgrade'' = Some u"
  shows "waitForUpgrade cfg n st w =
     (let w1 = settle r (issue (requestOptions cfg ''services'' GET (Query n) w) w)
      in waitForActive cfg n None (settle r2 (issue (requestOptions cfg u POST Empty w1) w1)))"
proof -
  have "script (settle r (issue (requestOptions cfg ''services'' GET (Query n) w) w)) = r2 # rs2"
    using assms(2) by simp
  from post_reply [OF this] show ?thesis
    using assms(3-5) by (simp add: waitForUpgrade_step [OF assms(1,2)] Let_def)
qed

section \<open>What a session submits\<close>

lemma keys_insert_index: "fst ` set (insert_index i k v obj) = insert k (fst ` set obj)"
  by (induction i k v obj rule: insert_index.induct)
     (simp_all split: option.splits add: insert_commute)

lemma map_of_insert_index:
  "k \<notin> fst ` set obj \<Longrightarrow>
   map_of (insert_index i k v obj) x = (if x = k then Some v else map_of obj x)"
  by (induction i k v obj rule: insert_index.induct) (auto split: option.splits)

lemma keys_set_property:
  "fst ` set (set_property k v obj) =
     (if k = ''__proto__'' \<and> k \<notin> fst ` set obj then fst ` set obj else insert k (fst ` set obj))"
  by (simp add: set_property_def AList.dom_update keys_insert_index insert_absorb
           split: option.splits)

lemma map_of_set_property:
  "map_of (set_property k v obj) x =
     (if k = ''__proto__'' \<and> k \<notin> fst ` set obj then map_of obj x
      else if x = k then Some v else map_of obj x)"
proof (cases "k \<in> fst ` set obj")
  case True
  then show ?thesis by (simp add: set_property_def AList.update_conv')
next
  case False
  then have n: "map_of obj k = None" by (simp add: map_of_eq_None_iff)
  have "map_of (obj @ [(k, v)]) y = (if y = k then Some v else map_of obj y)" for y
    using n by (auto simp: map_add_def split: option.splits)
  with False show ?thesis
    by (simp add: set_property_def map_of_insert_index split: option.splits)
qed

lemma object_assign_keys:
  "fst ` set (object_assign E R) =
     fst ` set E \<union> (fst ` set R - (if ''__proto__'' \<in> fst ` set E then {} else {''__proto__''}))"
  unfolding object_assign_def
proof (induction R arbitrary: E)
  case Nil
  show ?case by simp
next
  case (Cons kv R)
  obtain k0 v0 where kv: "kv = (k0, v0)" by (cases kv)
  let ?E1 = "set_property k0 v0 E"
  have p: "''__proto__'' \<in> fst ` set ?E1 \<longleftrightarrow> ''__proto__'' \<in> fst ` set E"
    by (auto simp: keys_set_property)
  have "fst ` set (fold (\<lambda>(k, v). set_property k v) (kv # R) E)
      = fst ` set ?E1 \<union> (fst ` set R - (if ''__proto__'' \<in> fst ` set ?E1 then {} else {''__proto__''}))"
    using Cons.IH [of ?E1] by (simp add: kv)
  also have "\<dots> = fst ` set E \<union> (fst ` set (kv # R) - (if ''__proto__'' \<in> fst ` set E then {} else {''__proto__''}))"
    unfolding p by (auto simp: keys_set_property kv)
  finally show ?case .
qed

lemma object_assign_lookup:
  "distinct (map fst R) \<Longrightarrow>
   map_of (object_assign E R) k =
     (case map_of R k of
        None \<Rightarrow> map_of E k
      | Some v \<Rightarrow> if k = ''__proto__'' \<and> k \<notin> fst ` set E then None else Some v)"
  unfolding object_assign_def
proof (induction R arbitrary: E)
  case Nil
  then show ?case by simp
next
  case (Cons kv R)
  obtain k0 v0 where kv: "kv = (k0, v0)" by (cases kv)
  let ?E1 = "set_property k0 v0 E"
  from Cons.prems have d: "distinct (map fst R)" and n: "k0 \<notin> fst ` set R"
    by (simp_all add: kv)
  from n have r0: "map_of R k0 = None" by (simp add: map_of_eq_None_iff)
  have p: "''__proto__'' \<in> fst ` set ?E1 \<longleftrightarrow> ''__proto__'' \<in> fst ` set E"
    by (auto simp: keys_set_property)
  have e: "''__proto__'' \<notin> fst ` set E \<Longrightarrow> map_of E ''__proto__'' = None"
    by (simp add: map_of_eq_None_iff)
  from Cons.IH [OF d, of ?E1] show ?case
    unfolding fold_simps kv prod.case
    using r0 e p by (auto simp: map_of_set_property split: option.splits)
qed


lemma submitted_requestOptions:
  "submitted [requestOptions cfg p m ps w] = (case ps of Strategy s \<Rightarrow> [s] | _ \<Rightarrow> [])"
  by (simp add: requestOptions_def split: params.splits)

lemma inServiceUpgrade_submits:
  assumes "serviceName req = Some nm" and "nm \<noteq> []"
    and "imageRepo req = Some repo" and "repo \<noteq> []"
    and "script w = r # rs" and "response r = Body (Collection (svc # others))"
    and "state svc = ''active'' \<or> truthy (map_of (actions svc) ''upgrade'')"
    and "map_of (actions svc) ''upgrade'' = Some u"
  shows "\<exists>cs. calls (snd (inServiceUpgrade cfg (Some req) w))
           = calls w @
             [requestOptions cfg ''services'' GET (Query nm) w,
              requestOptions cfg u POST (Strategy (upgradePayload req repo svc))
                (settle r (issue (requestOptions cfg ''services'' GET (Query nm) w) w))] @ cs
         \<and> submitted cs = [] \<and>
         (\<forall>s. fst (inServiceUpgrade cfg (Some req) w) \<noteq> Rejected (PreconditionError s))"
proof -
  define g where "g = requestOptions cfg ''services'' GET (Query nm) w"
  define w1 where "w1 = settle r (issue g w)"
  define p where "p = requestOptions cfg u POST (Strategy (upgradePayload req repo svc)) w1"
  have w1: "calls w1 = calls w @ [g]" "script w1 = rs"
    using assms(5) by (simp_all add: w1_def)
  have eq: "inServiceUpgrade cfg (Some req) w =
     (case post cfg (Some u) (Strategy (upgradePayload req repo svc)) w1 of
        (Resolved result, w2) \<Rightarrow>
          (case result of
             NoBody \<Rightarrow> (Rejected TypeError, w2)
           | _ \<Rightarrow> waitForUpgrade cfg nm None w2)
      | (Rejected e, w2) \<Rightarrow> (Rejected e, w2)
      | (Pending, w2) \<Rightarrow> (Pending, w2))"
    using assms by (auto simp: inServiceUpgrade_def getService_reply w1_def g_def)
  show ?thesis
  proof (cases rs)
    case Nil
    with eq w1 have "inServiceUpgrade cfg (Some req) w = (Pending, issue p w1)"
      by (simp add: post_empty p_def)
    then have "calls (snd (inServiceUpgrade cfg (Some req) w)) = calls w @ [g, p] @ []"
      "\<forall>s. fst (inServiceUpgrade cfg (Some req) w) \<noteq> Rejected (PreconditionError s)"
      using w1 by simp_all
    then show ?thesis unfolding g_def p_def w1_def by (intro exI [of _ "[]"]) simp
  next
    case (Cons r2 rs2)
    define w2 where "w2 = settle r2 (issue p w1)"
    have w2: "calls w2 = calls w @ [g, p]" using w1 by (simp add: w2_def)
    from waitForUpgrade_trace [of cfg nm None w2] obtain gs cs where
      tr: "calls (snd (waitForUpgrade cfg nm None w2)) = calls w2 @ gs @ cs"
        "polls nm gs" "finalized nm cs"
      by blast
    have sub: "submitted (gs @ cs) = []"
      using tr(2,3) by (simp add: submitted_polls submitted_finalized)
    have out: "fst (waitForUpgrade cfg nm None w2) \<noteq> Rejected (PreconditionError s)" for s
      using waitForUpgrade_outcome [of cfg nm None w2] by auto
    have "inServiceUpgrade cfg (Some req) w = (Rejected TypeError, w2)
        \<or> inServiceUpgrade cfg (Some req) w = waitForUpgrade cfg nm None w2"
      using eq w1 Cons
      by (simp add: post_reply [of w1 r2 rs2] p_def w2_def split: response.splits body.splits)
    then show ?thesis
    proof
      assume "inServiceUpgrade cfg (Some req) w = (Rejected TypeError, w2)"
      then have "calls (snd (inServiceUpgrade cfg (Some req) w)) = calls w @ [g, p] @ []"
        "\<forall>s. fst (inServiceUpgrade cfg (Some req) w) \<noteq> Rejected (PreconditionError s)"
        using w2 by simp_all
      then show ?thesis unfolding g_def p_def w1_def by (intro exI [of _ "[]"]) simp
    next
      assume "inServiceUpgrade cfg (Some req) w = waitForUpgrade cfg nm None w2"
      then have "calls (snd (inServiceUpgrade cfg (Some req) w)) = calls w @ [g, p] @ (gs @ cs)"
        "\<forall>s. fst (inServiceUpgrade cfg (Some req) w) \<noteq> Rejected (PreconditionError s)"
        using w2 tr(1) out by simp_all
      with sub show ?thesis unfolding g_def p_def w1_def by (intro exI [of _ "gs @ cs"]) simp
    qed
  qed
qed

lemma inServiceUpgrade_submitted:
  assumes "serviceName req = Some nm" and "nm \<noteq> []"
    and "imageRepo req = Some repo" and "repo \<noteq> []"
    and "script w = r # rs" and "response r = Body (Collection (svc # others))"
    and "state svc = ''active'' \<or> truthy (map_of (actions svc) ''upgrade'')"
    and "map_of (actions svc) ''upgrade'' = Some u"
  shows "submitted (calls (snd (inServiceUpgrade cfg (Some req) w)))
           = submitted (calls w) @ [upgradePayload req repo svc]"
proof -
  from inServiceUpgrade_submits [OF assms, of cfg] obtain cs where
    "calls (snd (inServiceUpgrade cfg (Some req) w))
           = calls w @
             [requestOptions cfg ''services'' GET (Query nm) w,
              requestOptions cfg u POST (Strategy (upgradePayload req repo svc))
                (settle r (issue (requestOptions cfg ''services'' GET (Query nm) w) w))] @ cs"
    "submitted cs = []"
    by blast
  then show ?thesis by (simp add: requestOptions_def)
qed

text \<open>The definitions a concrete run unfolds.\<close>

lemmas run_defs =
  waitForUpgrade.simps waitForActive.simps inServiceUpgrade_def getService_def get_def post_def
  apiRequest_def requestOptions_def is_absolute_def issue_def settle_def DELAY_def or_now_def
  truthy_def upgradePayload_def image_uuid_def merged_environment_def object_assign_def
  set_property_def array_index_def digit_def
  ex_cfg_def ex_svc_def ex_req_def found_def ack_def failure_def slow_def at_start_def
  Let_def

section \<open>Service directory lookup\<close>

text \<open>
  C8. A lookup that is answered issues exactly one query. It fails with NotFoundError
  when the query yields no match: the request failed, the body is empty, it is an empty
  collection or it has no \<^verbatim>\<open>data\<close>. When the collection has one or more matches
  the lookup resolves with the first one, whatever the others are.
\<close>

theorem getService_first_match:
  assumes "script w = r # rs"
  shows "(response r = Failed \<or> response r = Body NoBody \<or> response r = Body (Collection [])
            \<or> (\<exists>s. response r = Body (Resource s))
          \<longrightarrow> fst (getService cfg nm w) = Rejected NotFoundError)
       \<and> (\<forall>svc others. response r = Body (Collection (svc # others))
          \<longrightarrow> fst (getService cfg nm w) = Resolved svc)
       \<and> calls (snd (getService cfg nm w))
           = calls w @ [requestOptions cfg ''services'' GET (Query nm) w]
       \<and> script (snd (getService cfg nm w)) = rs"
  using assms by (auto simp: getService_reply)

theorem getService_first_match_witness:
  "fst (getService ex_cfg ''web'' (at_start [found []])) = Rejected NotFoundError
   \<and> fst (getService ex_cfg ''web'' (at_start [failure])) = Rejected NotFoundError
   \<and> fst (getService ex_cfg ''web'' (at_start [found [ex_svc ''active'', ex_svc ''upgraded'']]))
       = Resolved (ex_svc ''active'')"
proof -
  have a: "script (at_start [found []]) = found [] # []"
    and b: "script (at_start [failure]) = failure # []"
    and c: "script (at_start [found [ex_svc ''active'', ex_svc ''upgraded'']])
              = found [ex_svc ''active'', ex_svc ''upgraded''] # []"
    by (simp_all add: at_start_def)
  from getService_first_match [OF a, of ex_cfg "''web''"]
       getService_first_match [OF b, of ex_cfg "''web''"]
       getService_first_match [OF c, of ex_cfg "''web''"]
  show ?thesis by (simp add: found_def failure_def)
qed

section \<open>Validation of the request\<close>

text \<open>
  C4. A request without \<open>serviceName\<close> or without \<open>imageRepo\<close> is rejected with
  ValidationError, and the world is what it was: no request has been issued and no reply
  consumed.
\<close>

theorem validation_before_network:
  assumes "serviceName req = None \<or> imageRepo req = None"
  shows "\<exists>m. inServiceUpgrade cfg (Some req) w = (Rejected (ValidationError m), w)"
  using assms by (auto simp: inServiceUpgrade_def split: option.splits)

theorem validation_before_network_witness:
  "inServiceUpgrade ex_cfg (Some (ex_req\<lparr>imageRepo := None\<rparr>)) (at_start [found [ex_svc ''active'']])
     = (Rejected (ValidationError ''Must specify options.imageRepo''),
        at_start [found [ex_svc ''active'']])
   \<and> inServiceUpgrade ex_cfg (Some (ex_req\<lparr>serviceName := None\<rparr>))
        (at_start [found [ex_svc ''active'']])
     = (Rejected (ValidationError ''Must specify options.serviceName''),
        at_start [found [ex_svc ''active'']])"
proof -
  have a: "serviceName (ex_req\<lparr>imageRepo := None\<rparr>) = None
             \<or> imageRepo (ex_req\<lparr>imageRepo := None\<rparr>) = None"
   and b: "serviceName (ex_req\<lparr>serviceName := None\<rparr>) = None
             \<or> imageRepo (ex_req\<lparr>serviceName := None\<rparr>) = None"
    by simp_all
  from validation_before_network [OF a, of ex_cfg "at_start [found [ex_svc ''active'']]"]
       validation_before_network [OF b, of ex_cfg "at_start [found [ex_svc ''active'']]"]
  show ?thesis by (simp add: inServiceUpgrade_def ex_req_def)
qed

text \<open>The same holds when no options are given at all, and for empty strings.\<close>

lemma validation_of_falsy:
  assumes "opts = None \<or> (\<exists>req. opts = Some req \<and>
             (\<not> truthy (serviceName req) \<or> \<not> truthy (imageRepo req)))"
  shows "\<exists>m. inServiceUpgrade cfg opts w = (Rejected (ValidationError m), w)"
  using assms
  by (auto simp: inServiceUpgrade_def no_options_def truthy_def split: option.splits)

section \<open>Waiting for the upgraded state\<close>

text \<open>
  C1, as stated, fails for an upgraded descriptor that offers no \<open>finishupgrade\<close>
  action: \<^verbatim>\<open>post\<close> is called with an undefined path, \<^verbatim>\<open>path.match\<close>
  throws, and the session ends with a TypeError right after the lookup, with no
  \<open>finishupgrade\<close> request and without entering the wait-for-active phase.
\<close>

theorem finishupgrade_missing_counterexample:
  "state ((ex_svc ''upgraded'')\<lparr>actions := [(''rollback'', ''http://rancher/v1/r'')]\<rparr>)
     = ''upgraded''
   \<and> waitForUpgrade ex_cfg ''web'' None
        (at_start [found [(ex_svc ''upgraded'')
                            \<lparr>actions := [(''rollback'', ''http://rancher/v1/r'')]\<rparr>],
                   ack (ex_svc ''upgraded''), found [ex_svc ''active'']])
     = (Rejected TypeError,
        \<lparr>now = 1100, script = [ack (ex_svc ''upgraded''), found [ex_svc ''active'']],
         calls = [\<lparr>c_method = GET, c_uri = ''http://rancher/v1/services'',
                   c_params = Query ''web'', c_time = 1000\<rparr>]\<rparr>)
   \<and> posts (calls (snd (waitForUpgrade ex_cfg ''web'' None
        (at_start [found [(ex_svc ''upgraded'')
                            \<lparr>actions := [(''rollback'', ''http://rancher/v1/r'')]\<rparr>],
                   ack (ex_svc ''upgraded''), found [ex_svc ''active'']]))))
     = []"
  by (simp add: run_defs)

text \<open>
  C1, amended. A poll tick of the wait-for-upgraded phase that is within its deadline and
  whose lookup yields a descriptor is decided by the descriptor's state. On
  \<open>upgrading\<close> the phase sleeps for the check interval and polls again with the same
  start time. On \<open>upgraded\<close>, when the descriptor offers a \<open>finishupgrade\<close>
  action, exactly one POST is issued in the rest of the session, to that action, and once
  it is answered the session is in the wait-for-active phase, entered with no start time.
  On any other state the result is UnexpectedStateError with the observed state, and the
  world is the one right after the lookup: no POST was issued, and the remaining replies
  are untouched, so nothing more was polled.
\<close>

theorem waitForUpgrade_classifies:
  assumes "\<not> or_now st w + serviceUpgradedTimeout cfg < now w"
    and "script w = r # rs"
    and "response r = Body (Collection (svc # others))"
  shows
    "(let w1 = settle r (issue (requestOptions cfg ''services'' GET (Query n) w) w) in
      (state svc = ''upgrading'' \<longrightarrow>
         waitForUpgrade cfg n st w =
           waitForUpgrade cfg n (Some (or_now st w)) (DELAY (statusCheckFrequency cfg) w1))
    \<and> (state svc = ''upgraded'' \<longrightarrow>
         (\<forall>u. map_of (actions svc) ''finishupgrade'' = Some u \<longrightarrow>
            posts (calls (snd (waitForUpgrade cfg n st w)))
              = posts (calls w) @ [requestOptions cfg u POST Empty w1]
          \<and> (\<forall>r2 rs2. rs = r2 # rs2 \<longrightarrow>
                waitForUpgrade cfg n st w =
                  waitForActive cfg n None
                    (settle r2 (issue (requestOptions cfg u POST Empty w1) w1)))))
    \<and> (state svc \<noteq> ''upgrading'' \<and> state svc \<noteq> ''upgraded'' \<longrightarrow>
         waitForUpgrade cfg n st w = (Rejected (UnexpectedStateError (state svc)), w1)
       \<and> calls w1 = calls w @ [requestOptions cfg ''services'' GET (Query n) w]
       \<and> script w1 = rs))"
proof -
  define g where "g = requestOptions cfg ''services'' GET (Query n) w"
  define w1 where "w1 = settle r (issue g w)"
  have w1: "calls w1 = calls w @ [g]" "script w1 = rs"
    using assms(2) by (simp_all add: w1_def)
  have g: "c_method g = GET" by (simp add: g_def requestOptions_def)
  note step = waitForUpgrade_step [OF assms(1,2), of n, unfolded assms(3) Let_def,
      folded g_def, folded w1_def, simplified]
  have a: "state svc = ''upgrading'' \<Longrightarrow>
      waitForUpgrade cfg n st w =
        waitForUpgrade cfg n (Some (or_now st w)) (DELAY (statusCheckFrequency cfg) w1)"
    using step by simp
  have c: "state svc \<noteq> ''upgrading'' \<Longrightarrow> state svc \<noteq> ''upgraded'' \<Longrightarrow>
      waitForUpgrade cfg n st w = (Rejected (UnexpectedStateError (state svc)), w1)"
    using step by simp
  have b2: "waitForUpgrade cfg n st w =
      waitForActive cfg n None (settle r2 (issue (requestOptions cfg u POST Empty w1) w1))"
    if "state svc = ''upgraded''" "map_of (actions svc) ''finishupgrade'' = Some u"
      "rs = r2 # rs2" for u r2 rs2
    using step that w1(2) by (simp add: post_reply [of w1 r2 rs2])
  have b1: "posts (calls (snd (waitForUpgrade cfg n st w)))
      = posts (calls w) @ [requestOptions cfg u POST Empty w1]"
    if up: "state svc = ''upgraded''" and u: "map_of (actions svc) ''finishupgrade'' = Some u"
    for u
  proof (cases rs)
    case Nil
    then have "waitForUpgrade cfg n st w = (Pending, issue (requestOptions cfg u POST Empty w1) w1)"
      using step up u w1(2) by (simp add: post_empty)
    then show ?thesis using w1(1) g by simp
  next
    case (Cons r2 rs2)
    define w2 where "w2 = settle r2 (issue (requestOptions cfg u POST Empty w1) w1)"
    obtain cs where cs: "calls (snd (waitForActive cfg n None w2)) = calls w2 @ cs" "polls n cs"
      using waitForActive_polls by blast
    have "calls w2 = calls w @ [g, requestOptions cfg u POST Empty w1]"
      using w1(1) by (simp add: w2_def)
    with cs b2 [OF up u Cons] g show ?thesis
      by (simp add: w2_def [symmetric] posts_polls)
  qed
  show ?thesis
    unfolding Let_def g_def [symmetric] w1_def [symmetric]
    using a b1 b2 c w1 by blast
qed


theorem waitForUpgrade_classifies_witness:
  "waitForUpgrade ex_cfg ''web'' None
      (at_start [found [ex_svc ''upgrading''], found [ex_svc ''upgraded'']])
     = waitForUpgrade ex_cfg ''web'' (Some 1000)
         \<lparr>now = 21100, script = [found [ex_svc ''upgraded'']],
          calls = [\<lparr>c_method = GET, c_uri = ''http://rancher/v1/services'',
                    c_params = Query ''web'', c_time = 1000\<rparr>]\<rparr>
   \<and> posts (calls (snd (waitForUpgrade ex_cfg ''web'' None
        (at_start [found [ex_svc ''upgraded''], ack (ex_svc ''upgraded''),
                   found [ex_svc ''active'']]))))
     = [\<lparr>c_method = POST, c_uri = ''http://rancher/v1/services/1/?action=finishupgrade'',
         c_params = Empty, c_time = 1100\<rparr>]
   \<and> waitForUpgrade ex_cfg ''web'' None
        (at_start [found [ex_svc ''rolling-back''], found [ex_svc ''upgraded'']])
     = (Rejected (UnexpectedStateError ''rolling-back''),
        \<lparr>now = 1100, script = [found [ex_svc ''upgraded'']],
         calls = [\<lparr>c_method = GET, c_uri = ''http://rancher/v1/services'',
                   c_params = Query ''web'', c_time = 1000\<rparr>]\<rparr>)"
proof -
  let ?a = "at_start [found [ex_svc ''upgrading''], found [ex_svc ''upgraded'']]"
  let ?b = "at_start [found [ex_svc ''upgraded''], ack (ex_svc ''upgraded''),
                   found [ex_svc ''active'']]"
  let ?c = "at_start [found [ex_svc ''rolling-back''], found [ex_svc ''upgraded'']]"
  have t: "\<not> or_now None ?a + serviceUpgradedTimeout ex_cfg < now ?a"
      "\<not> or_now None ?b + serviceUpgradedTimeout ex_cfg < now ?b"
      "\<not> or_now None ?c + serviceUpgradedTimeout ex_cfg < now ?c"
    by (simp_all add: or_now_def ex_cfg_def at_start_def)
  have s: "script ?a = found [ex_svc ''upgrading''] # [found [ex_svc ''upgraded'']]"
      "script ?b = found [ex_svc ''upgraded''] # [ack (ex_svc ''upgraded''), found [ex_svc ''active'']]"
      "script ?c = found [ex_svc ''rolling-back''] # [found [ex_svc ''upgraded'']]"
    by (simp_all add: at_start_def)
  have r: "response (found [ex_svc ''upgrading'']) = Body (Collection (ex_svc ''upgrading'' # []))"
      "response (found [ex_svc ''upgraded'']) = Body (Collection (ex_svc ''upgraded'' # []))"
      "response (found [ex_svc ''rolling-back'']) = Body (Collection (ex_svc ''rolling-back'' # []))"
    by (simp_all add: found_def)
  from waitForUpgrade_classifies [OF t(1) s(1) r(1), of "''web''"]
       waitForUpgrade_classifies [OF t(2) s(2) r(2), of "''web''"]
       waitForUpgrade_classifies [OF t(3) s(3) r(3), of "''web''"]
  show ?thesis
    by (simp add: run_defs posts_def)
qed

section \<open>Deadlines of the wait phases\<close>

text \<open>
  C3. Each wait phase tests its deadline before the lookup of every tick: when the clock
  is past start time plus timeout, the phase fails with TimeoutError and the world is
  unchanged, so the lookup was not started. A phase entered with no start time on a clock
  that is not at 0 takes the time of entry as start: every lookup of the wait-for-upgraded
  phase is issued no later than entry plus \<open>serviceUpgradedTimeout\<close>, and every
  lookup of the wait-for-active phase no later than its own entry plus
  \<open>serviceActiveTimeout\<close>. The wait-for-active phase is entered, with no start time,
  in the world in which the \<open>finishupgrade\<close> request has been answered, so its
  budget does not depend on what the first phase has used.
\<close>

theorem wait_phase_deadlines:
  "(or_now st w + serviceUpgradedTimeout cfg < now w \<longrightarrow>
      waitForUpgrade cfg n st w = (Rejected (TimeoutError UpgradedWait), w))
 \<and> (or_now st w + serviceActiveTimeout cfg < now w \<longrightarrow>
      waitForActive cfg n st w = (Rejected (TimeoutError ActiveWait), w))
 \<and> (now w \<noteq> 0 \<longrightarrow>
      (\<exists>gs cs. calls (snd (waitForUpgrade cfg n None w)) = calls w @ gs @ cs
         \<and> polls n gs \<and> finalized n cs
         \<and> (\<forall>c\<in>set gs. c_time c \<le> now w + serviceUpgradedTimeout cfg)))
 \<and> (now w \<noteq> 0 \<longrightarrow>
      (\<exists>cs. calls (snd (waitForActive cfg n None w)) = calls w @ cs
         \<and> polls n cs
         \<and> (\<forall>c\<in>set cs. c_time c \<le> now w + serviceActiveTimeout cfg)))
 \<and> (\<forall>r r2 rs2 svc others u.
       \<not> or_now st w + serviceUpgradedTimeout cfg < now w
       \<and> script w = r # r2 # rs2
       \<and> response r = Body (Collection (svc # others))
       \<and> state svc = ''upgraded''
       \<and> map_of (actions svc) ''finishupgrade'' = Some u \<longrightarrow>
       waitForUpgrade cfg n st w =
         (let w1 = settle r (issue (requestOptions cfg ''services'' GET (Query n) w) w)
          in waitForActive cfg n None
               (settle r2 (issue (requestOptions cfg u POST Empty w1) w1))))"
proof (intro conjI impI allI)
  assume "now w \<noteq> 0"
  then have z: "or_now None w \<noteq> 0" "or_now None w = now w" by (simp_all add: or_now_def)
  from waitForUpgrade_trace [of cfg n None w] z
  show "\<exists>gs cs. calls (snd (waitForUpgrade cfg n None w)) = calls w @ gs @ cs
         \<and> polls n gs \<and> finalized n cs
         \<and> (\<forall>c\<in>set gs. c_time c \<le> now w + serviceUpgradedTimeout cfg)"
    by auto
  from waitForActive_trace [of cfg n None w] z
  show "\<exists>cs. calls (snd (waitForActive cfg n None w)) = calls w @ cs
         \<and> polls n cs
         \<and> (\<forall>c\<in>set cs. c_time c \<le> now w + serviceActiveTimeout cfg)"
    by (auto simp: polls_def list_all_iff)
qed (simp_all add: waitForUpgrade_timeout waitForActive_timeout waitForUpgrade_finalize)

theorem wait_phase_deadlines_witness:
  "waitForUpgrade ex_cfg ''web'' (Some 1000)
      \<lparr>now = 181001, script = [found [ex_svc ''upgraded'']], calls = []\<rparr>
     = (Rejected (TimeoutError UpgradedWait),
        \<lparr>now = 181001, script = [found [ex_svc ''upgraded'']], calls = []\<rparr>)
   \<and> waitForActive ex_cfg ''web'' (Some 1000)
      \<lparr>now = 181001, script = [found [ex_svc ''active'']], calls = []\<rparr>
     = (Rejected (TimeoutError ActiveWait),
        \<lparr>now = 181001, script = [found [ex_svc ''active'']], calls = []\<rparr>)
   \<and> fst (waitForUpgrade ex_cfg ''web'' (Some 1000)
      \<lparr>now = 181000, script = [found [ex_svc ''upgraded'']], calls = []\<rparr>)
     = Pending
   \<and> waitForUpgrade ex_cfg ''web'' None
        (at_start [slow 170000 [ex_svc ''upgraded''], ack (ex_svc ''upgraded''),
                   found [ex_svc ''upgraded''], found [ex_svc ''active'']])
     = (Resolved (ex_svc ''active''),
        \<lparr>now = 191300, script = [],
         calls = [\<lparr>c_method = GET, c_uri = ''http://rancher/v1/services'',
                   c_params = Query ''web'', c_time = 1000\<rparr>,
                  \<lparr>c_method = POST,
                   c_uri = ''http://rancher/v1/services/1/?action=finishupgrade'',
                   c_params = Empty, c_time = 171000\<rparr>,
                  \<lparr>c_method = GET, c_uri = ''http://rancher/v1/services'',
                   c_params = Query ''web'', c_time = 171100\<rparr>,
                  \<lparr>c_method = GET, c_uri = ''http://rancher/v1/services'',
                   c_params = Query ''web'', c_time = 191200\<rparr>]\<rparr>)"
  using wait_phase_deadlines [of "Some 1000"
          "\<lparr>now = 181001, script = [found [ex_svc ''upgraded'']], calls = []\<rparr>" ex_cfg "''web''"]
        wait_phase_deadlines [of "Some 1000"
          "\<lparr>now = 181001, script = [found [ex_svc ''active'']], calls = []\<rparr>" ex_cfg "''web''"]
        wait_phase_deadlines [of None
          "at_start [slow 170000 [ex_svc ''upgraded''], ack (ex_svc ''upgraded''),
                   found [ex_svc ''upgraded''], found [ex_svc ''active'']]" ex_cfg "''web''"]
  by (simp add: run_defs slow_def)


section \<open>Waiting for the active state\<close>

text \<open>
  C9, as stated, fails: the wait-for-active phase has a failure other than TimeoutError.
  A poll whose lookup finds no service rejects the phase with NotFoundError.
\<close>

theorem waitForActive_failure_counterexample:
  "fst (waitForActive ex_cfg ''web'' None (at_start [found []])) = Rejected NotFoundError
   \<and> Rejected NotFoundError \<noteq> (Rejected (TimeoutError ActiveWait) :: service outcome)"
  by (simp add: run_defs)

text \<open>
  C9, amended. A poll tick of the wait-for-active phase that is within its deadline and
  whose lookup yields a descriptor ends the phase with that descriptor when its state is
  \<open>active\<close>, and otherwise sleeps for the check interval and polls again with the
  same start time. The phase never fails with UnexpectedStateError: it resolves with an
  active descriptor, fails with TimeoutError or with the NotFoundError of a lookup, or
  is left without an answer.
\<close>

theorem waitForActive_classifies:
  "(\<forall>r rs svc others.
       \<not> or_now st w + serviceActiveTimeout cfg < now w
       \<and> script w = r # rs \<and> response r = Body (Collection (svc # others)) \<longrightarrow>
       (let w1 = settle r (issue (requestOptions cfg ''services'' GET (Query n) w) w) in
          (state svc = ''active'' \<longrightarrow> waitForActive cfg n st w = (Resolved svc, w1))
        \<and> (state svc \<noteq> ''active'' \<longrightarrow>
             waitForActive cfg n st w =
               waitForActive cfg n (Some (or_now st w)) (DELAY (statusCheckFrequency cfg) w1))))
 \<and> fst (waitForActive cfg n st w)
      \<in> {Pending, Rejected (TimeoutError ActiveWait), Rejected NotFoundError}
          \<union> {Resolved svc | svc. state svc = ''active''}
 \<and> (\<forall>s. fst (waitForActive cfg n st w) \<noteq> Rejected (UnexpectedStateError s))"
proof (intro conjI allI impI)
  fix r rs svc others
  assume "\<not> or_now st w + serviceActiveTimeout cfg < now w
       \<and> script w = r # rs \<and> response r = Body (Collection (svc # others))"
  then show "let w1 = settle r (issue (requestOptions cfg ''services'' GET (Query n) w) w) in
          (state svc = ''active'' \<longrightarrow> waitForActive cfg n st w = (Resolved svc, w1))
        \<and> (state svc \<noteq> ''active'' \<longrightarrow>
             waitForActive cfg n st w =
               waitForActive cfg n (Some (or_now st w)) (DELAY (statusCheckFrequency cfg) w1))"
    by (simp add: waitForActive_step [of st w cfg r rs n] Let_def)
next
  show "fst (waitForActive cfg n st w)
      \<in> {Pending, Rejected (TimeoutError ActiveWait), Rejected NotFoundError}
          \<union> {Resolved svc | svc. state svc = ''active''}"
    by (rule waitForActive_outcome)
next
  fix s
  show "fst (waitForActive cfg n st w) \<noteq> Rejected (UnexpectedStateError s)"
    using waitForActive_outcome [of cfg n st w] by auto
qed

theorem waitForActive_classifies_witness:
  "waitForActive ex_cfg ''web'' None (at_start [found [ex_svc ''active'']])
     = (Resolved (ex_svc ''active''),
        \<lparr>now = 1100, script = [],
         calls = [\<lparr>c_method = GET, c_uri = ''http://rancher/v1/services'',
                   c_params = Query ''web'', c_time = 1000\<rparr>]\<rparr>)
   \<and> waitForActive ex_cfg ''web'' None
        (at_start [found [ex_svc ''rolling-back''], found [ex_svc ''active'']])
     = waitForActive ex_cfg ''web'' (Some 1000)
         \<lparr>now = 21100, script = [found [ex_svc ''active'']],
          calls = [\<lparr>c_method = GET, c_uri = ''http://rancher/v1/services'',
                    c_params = Query ''web'', c_time = 1000\<rparr>]\<rparr>
   \<and> fst (waitForActive ex_cfg ''web'' None
        (at_start [found [ex_svc ''rolling-back''], found [ex_svc ''active'']]))
     = Resolved (ex_svc ''active'')"
  using waitForActive_classifies
          [of None "at_start [found [ex_svc ''active'']]" ex_cfg "''web''"]
        waitForActive_classifies
          [of None "at_start [found [ex_svc ''rolling-back''], found [ex_svc ''active'']]"
              ex_cfg "''web''"]
  by (simp add: run_defs)

section \<open>Requests that fail\<close>

text \<open>
  C2, as stated, fails: no TransportError reaches the caller. A session whose first lookup
  cannot be completed fails with NotFoundError.
\<close>

theorem transport_failure_counterexample:
  "response failure = Failed
   \<and> fst (inServiceUpgrade ex_cfg (Some ex_req) (at_start [failure])) = Rejected NotFoundError
   \<and> Rejected NotFoundError \<noteq> (Rejected TransportError :: service outcome)"
  by (simp add: run_defs)

text \<open>
  C2, amended. A request that cannot be completed is issued once and resolves with no
  body: it is not retried and raises nothing. A lookup whose request fails is therefore
  reported as NotFoundError, which ends the session at once, in the initial fetch and in
  a poll tick of either wait phase alike, with the remaining replies untouched. No
  session fails with TransportError.
\<close>

theorem transport_failure_not_retried:
  assumes "script w = r # rs" and "response r = Failed"
  shows
   "apiRequest cfg (Some p) m ps w
      = (Resolved NoBody, settle r (issue (requestOptions cfg p m ps w) w))
  \<and> (let w1 = settle r (issue (requestOptions cfg ''services'' GET (Query n) w) w) in
       getService cfg n w = (Rejected NotFoundError, w1)
     \<and> (\<not> or_now st w + serviceUpgradedTimeout cfg < now w \<longrightarrow>
          waitForUpgrade cfg n st w = (Rejected NotFoundError, w1))
     \<and> (\<not> or_now st w + serviceActiveTimeout cfg < now w \<longrightarrow>
          waitForActive cfg n st w = (Rejected NotFoundError, w1))
     \<and> (\<forall>req repo. serviceName req = Some n \<and> n \<noteq> [] \<and> imageRepo req = Some repo
            \<and> repo \<noteq> [] \<longrightarrow>
          inServiceUpgrade cfg (Some req) w = (Rejected NotFoundError, w1))
     \<and> calls w1 = calls w @ [requestOptions cfg ''services'' GET (Query n) w]
     \<and> script w1 = rs)
  \<and> (\<forall>opts w'. fst (inServiceUpgrade cfg opts w') \<noteq> Rejected TransportError)"
proof -
  have "\<forall>opts w'. fst (inServiceUpgrade cfg opts w') \<noteq> Rejected TransportError"
    by (simp add: inServiceUpgrade_no_TransportError)
  moreover have "apiRequest cfg (Some p) m ps w
      = (Resolved NoBody, settle r (issue (requestOptions cfg p m ps w) w))"
    using assms by (simp add: apiRequest_reply)
  moreover have "getService cfg n w = (Rejected NotFoundError,
      settle r (issue (requestOptions cfg ''services'' GET (Query n) w) w))"
    using assms by (simp add: getService_reply)
  ultimately show ?thesis
    using assms
    by (simp add: waitForUpgrade_step waitForActive_step inServiceUpgrade_def Let_def)
qed

theorem transport_failure_not_retried_witness:
  "inServiceUpgrade ex_cfg (Some ex_req) (at_start [failure, found [ex_svc ''active'']])
     = (Rejected NotFoundError,
        \<lparr>now = 1100, script = [found [ex_svc ''active'']],
         calls = [\<lparr>c_method = GET, c_uri = ''http://rancher/v1/services'',
                   c_params = Query ''web'', c_time = 1000\<rparr>]\<rparr>)
   \<and> waitForActive ex_cfg ''web'' None (at_start [failure, found [ex_svc ''active'']])
     = (Rejected NotFoundError,
        \<lparr>now = 1100, script = [found [ex_svc ''active'']],
         calls = [\<lparr>c_method = GET, c_uri = ''http://rancher/v1/services'',
                   c_params = Query ''web'', c_time = 1000\<rparr>]\<rparr>)
   \<and> waitForUpgrade ex_cfg ''web'' None (at_start [failure, found [ex_svc ''active'']])
     = (Rejected NotFoundError,
        \<lparr>now = 1100, script = [found [ex_svc ''active'']],
         calls = [\<lparr>c_method = GET, c_uri = ''http://rancher/v1/services'',
                   c_params = Query ''web'', c_time = 1000\<rparr>]\<rparr>)"
proof -
  have a: "script (at_start [failure, found [ex_svc ''active'']])
             = failure # [found [ex_svc ''active'']]"
    and b: "response failure = Failed"
    by (simp_all add: at_start_def failure_def)
  from transport_failure_not_retried [OF a b, of ex_cfg _ _ _ "''web''" None]
  show ?thesis by (simp add: run_defs)
qed


section \<open>The precondition on the fetched descriptor\<close>

text \<open>
  C5. For a valid request whose lookup yields a descriptor that is not \<open>active\<close>:
  when the descriptor has no upgrade action (the entry is missing, or empty, which
  \<^verbatim>\<open>!svc.actions.upgrade\<close> takes for missing), the session fails with
  PreconditionError carrying the state, in the world right after the lookup, so nothing
  was submitted; when it has an upgrade action, the request issued next is the POST of the
  payload to that action, and the session does not end with PreconditionError. The
  warning is a log line, which the model does not record.
\<close>

theorem precondition_check:
  assumes "serviceName req = Some nm" and "nm \<noteq> []"
    and "imageRepo req = Some repo" and "repo \<noteq> []"
    and "script w = r # rs" and "response r = Body (Collection (svc # others))"
    and "state svc \<noteq> ''active''"
  shows
   "(let g = requestOptions cfg ''services'' GET (Query nm) w; w1 = settle r (issue g w) in
      (map_of (actions svc) ''upgrade'' = None \<or> map_of (actions svc) ''upgrade'' = Some []
         \<longrightarrow>
         inServiceUpgrade cfg (Some req) w = (Rejected (PreconditionError (state svc)), w1)
       \<and> calls w1 = calls w @ [g] \<and> script w1 = rs)
    \<and> (\<forall>u. map_of (actions svc) ''upgrade'' = Some u \<and> u \<noteq> [] \<longrightarrow>
         (\<exists>cs. calls (snd (inServiceUpgrade cfg (Some req) w))
                 = calls w @
                   [g, requestOptions cfg u POST (Strategy (upgradePayload req repo svc)) w1]
                   @ cs)
       \<and> (\<forall>s. fst (inServiceUpgrade cfg (Some req) w) \<noteq> Rejected (PreconditionError s))))"
proof -
  define g where "g = requestOptions cfg ''services'' GET (Query nm) w"
  define w1 where "w1 = settle r (issue g w)"
  have a: "inServiceUpgrade cfg (Some req) w = (Rejected (PreconditionError (state svc)), w1)"
    if "map_of (actions svc) ''upgrade'' = None \<or> map_of (actions svc) ''upgrade'' = Some []"
    using assms that
    by (auto simp add: inServiceUpgrade_def getService_reply truthy_def w1_def g_def)
  have w1: "calls w1 = calls w @ [g]" "script w1 = rs"
    using assms(5) by (simp_all add: w1_def)
  have b: "(\<exists>cs. calls (snd (inServiceUpgrade cfg (Some req) w))
                 = calls w @
                   [g, requestOptions cfg u POST (Strategy (upgradePayload req repo svc)) w1]
                   @ cs)
       \<and> (\<forall>s. fst (inServiceUpgrade cfg (Some req) w) \<noteq> Rejected (PreconditionError s))"
    if u: "map_of (actions svc) ''upgrade'' = Some u" "u \<noteq> []" for u
  proof -
    have "state svc = ''active'' \<or> truthy (map_of (actions svc) ''upgrade'')"
      using u by (simp add: truthy_def)
    from inServiceUpgrade_submits [OF assms(1-6) this u(1), of cfg]
    show ?thesis unfolding g_def w1_def by blast
  qed
  show ?thesis
    unfolding Let_def g_def [symmetric] w1_def [symmetric]
    using a b w1 by blast
qed

theorem precondition_check_witness:
  "inServiceUpgrade ex_cfg (Some ex_req)
      (at_start [found [(ex_svc ''upgrading'')\<lparr>actions := []\<rparr>], found [ex_svc ''active'']])
     = (Rejected (PreconditionError ''upgrading''),
        \<lparr>now = 1100, script = [found [ex_svc ''active'']],
         calls = [\<lparr>c_method = GET, c_uri = ''http://rancher/v1/services'',
                   c_params = Query ''web'', c_time = 1000\<rparr>]\<rparr>)
   \<and> take 2 (calls (snd (inServiceUpgrade ex_cfg (Some ex_req)
        (at_start [found [ex_svc ''inactive''], ack (ex_svc ''upgrading''),
                   found [ex_svc ''upgraded''], ack (ex_svc ''upgraded''),
                   found [ex_svc ''active'']]))))
     = [\<lparr>c_method = GET, c_uri = ''http://rancher/v1/services'',
         c_params = Query ''web'', c_time = 1000\<rparr>,
        \<lparr>c_method = POST, c_uri = ''http://rancher/v1/services/1/?action=upgrade'',
         c_params = Strategy (upgradePayload ex_req ''org/app'' (ex_svc ''inactive'')),
         c_time = 1100\<rparr>]
   \<and> fst (inServiceUpgrade ex_cfg (Some ex_req)
        (at_start [found [ex_svc ''inactive''], ack (ex_svc ''upgrading''),
                   found [ex_svc ''upgraded''], ack (ex_svc ''upgraded''),
                   found [ex_svc ''active'']]))
     = Resolved (ex_svc ''active'')"
proof -
  let ?a = "at_start [found [(ex_svc ''upgrading'')\<lparr>actions := []\<rparr>], found [ex_svc ''active'']]"
  let ?b = "at_start [found [ex_svc ''inactive''], ack (ex_svc ''upgrading''),
                   found [ex_svc ''upgraded''], ack (ex_svc ''upgraded''),
                   found [ex_svc ''active'']]"
  have v: "serviceName ex_req = Some ''web''" "''web'' \<noteq> []"
      "imageRepo ex_req = Some ''org/app''" "''org/app'' \<noteq> []"
    by (simp_all add: ex_req_def)
  have s: "script ?a = found [(ex_svc ''upgrading'')\<lparr>actions := []\<rparr>] # [found [ex_svc ''active'']]"
     "script ?b = found [ex_svc ''inactive''] # [ack (ex_svc ''upgrading''),
                   found [ex_svc ''upgraded''], ack (ex_svc ''upgraded''),
                   found [ex_svc ''active'']]"
    by (simp_all add: at_start_def)
  have r: "response (found [(ex_svc ''upgrading'')\<lparr>actions := []\<rparr>])
      = Body (Collection ((ex_svc ''upgrading'')\<lparr>actions := []\<rparr> # []))"
     "response (found [ex_svc ''inactive'']) = Body (Collection (ex_svc ''inactive'' # []))"
    by (simp_all add: found_def)
  have n: "state ((ex_svc ''upgrading'')\<lparr>actions := []\<rparr>) \<noteq> ''active''"
     "state (ex_svc ''inactive'') \<noteq> ''active''"
    by (simp_all add: ex_svc_def)
  from precondition_check [OF v s(1) r(1) n(1), of ex_cfg]
       precondition_check [OF v s(2) r(2) n(2), of ex_cfg]
  show ?thesis by (simp add: run_defs)
qed


section \<open>The payload of the upgrade\<close>

text \<open>
  C6, as stated, fails for a tag that is present and empty: the image reference submitted
  has no colon at its end.
\<close>

theorem image_uuid_counterexample:
  "imageTag (ex_req\<lparr>imageTag := Some []\<rparr>) = Some []
   \<and> map (\<lambda>p. imageUuid (st_launchConfig p))
        (submitted (calls (snd (inServiceUpgrade ex_cfg (Some (ex_req\<lparr>imageTag := Some []\<rparr>))
           (at_start [found [ex_svc ''active'']])))))
     = [''docker:org/app'']
   \<and> ''docker:org/app'' \<noteq> ''docker:'' @ ''org/app'' @ '':'' @ []"
  by (simp add: run_defs)

text \<open>
  C6, amended. A session that gets as far as submitting submits exactly one upgrade
  payload. Its \<open>launchConfig.imageUuid\<close> is \<open>"docker:" + imageRepo\<close> when the
  tag is missing or empty, and \<open>"docker:" + imageRepo + ":" + imageTag\<close> when the tag
  is a non-empty string.
\<close>

theorem submitted_image_uuid:
  assumes "serviceName req = Some nm" and "nm \<noteq> []"
    and "imageRepo req = Some repo" and "repo \<noteq> []"
    and "script w = r # rs" and "response r = Body (Collection (svc # others))"
    and "state svc = ''active'' \<or> truthy (map_of (actions svc) ''upgrade'')"
    and "map_of (actions svc) ''upgrade'' = Some u"
  shows "\<exists>p. submitted (calls (snd (inServiceUpgrade cfg (Some req) w)))
                = submitted (calls w) @ [p]
     \<and> (imageTag req = None \<or> imageTag req = Some [] \<longrightarrow>
          imageUuid (st_launchConfig p) = ''docker:'' @ repo)
     \<and> (\<forall>tag. imageTag req = Some tag \<and> tag \<noteq> [] \<longrightarrow>
          imageUuid (st_launchConfig p) = ''docker:'' @ repo @ '':'' @ tag)"
  using inServiceUpgrade_submitted [OF assms, of cfg]
  by (auto simp: upgradePayload_def image_uuid_def)

theorem submitted_image_uuid_witness:
  "map (\<lambda>p. imageUuid (st_launchConfig p))
     (submitted (calls (snd (inServiceUpgrade ex_cfg (Some ex_req)
        (at_start [found [ex_svc ''active'']])))))
     = [''docker:org/app:v2'']
   \<and> map (\<lambda>p. imageUuid (st_launchConfig p))
     (submitted (calls (snd (inServiceUpgrade ex_cfg (Some (ex_req\<lparr>imageTag := None\<rparr>))
        (at_start [found [ex_svc ''active'']])))))
     = [''docker:org/app'']"
proof -
  let ?w = "at_start [found [ex_svc ''active'']]"
  have v: "serviceName ex_req = Some ''web''" "''web'' \<noteq> []"
      "imageRepo ex_req = Some ''org/app''" "''org/app'' \<noteq> []"
    and v': "serviceName (ex_req\<lparr>imageTag := None\<rparr>) = Some ''web''"
      "imageRepo (ex_req\<lparr>imageTag := None\<rparr>) = Some ''org/app''"
    by (simp_all add: ex_req_def)
  have s: "script ?w = found [ex_svc ''active''] # []"
    and r: "response (found [ex_svc ''active'']) = Body (Collection (ex_svc ''active'' # []))"
    and a: "state (ex_svc ''active'') = ''active''
            \<or> truthy (map_of (actions (ex_svc ''active'')) ''upgrade'')"
    and u: "map_of (actions (ex_svc ''active'')) ''upgrade''
            = Some ''http://rancher/v1/services/1/?action=upgrade''"
    by (simp_all add: at_start_def found_def ex_svc_def)
  from submitted_image_uuid [OF v s r a u, of ex_cfg]
       submitted_image_uuid [OF v'(1) v(2) v'(2) v(4) s r a u, of ex_cfg]
  show ?thesis by (simp add: run_defs)
qed

text \<open>
  C7, as stated, fails for a request environment that has a key \<open>__proto__\<close> of its
  own (as an object parsed from JSON can): \<^verbatim>\<open>Object.assign\<close> does not copy that
  key onto an environment without one, and the submitted environment lacks it.
\<close>

theorem environment_proto_counterexample:
  "map_of [(''__proto__'', JStr ''x'')] ''__proto__'' = Some (JStr ''x'')
   \<and> map (\<lambda>p. lc_environment (st_launchConfig p))
       (submitted (calls (snd (inServiceUpgrade ex_cfg
          (Some (ex_req\<lparr>environment := Some [(''__proto__'', JStr ''x'')]\<rparr>))
          (at_start [found [ex_svc ''active'']])))))
     = [Some [(''A'', JNum 1), (''B'', JNum 2)]]
   \<and> map_of [(''A'', JNum 1), (''B'', JNum 2)] ''__proto__'' = None"
  by (simp add: run_defs)

text \<open>
  C7, amended. The environment of the submitted launch configuration, for the service's
  environment \<open>E\<close> and the request's environment \<open>R\<close> (each empty when
  missing; the keys of \<open>R\<close> distinct, as the keys of an object are): its keys are
  those of \<open>E\<close> and those of \<open>R\<close>, but for the key \<open>__proto__\<close>, which it
  has only when \<open>E\<close> has it; every entry of \<open>R\<close> whose key is not
  \<open>__proto__\<close>, or whose key \<open>E\<close> has too, is in it; and a key that \<open>R\<close>
  does not mention has the value it has in \<open>E\<close>.
\<close>

theorem submitted_environment:
  assumes "serviceName req = Some nm" and "nm \<noteq> []"
    and "imageRepo req = Some repo" and "repo \<noteq> []"
    and "script w = r # rs" and "response r = Body (Collection (svc # others))"
    and "state svc = ''active'' \<or> truthy (map_of (actions svc) ''upgrade'')"
    and "map_of (actions svc) ''upgrade'' = Some u"
    and "E = (case lc_environment (launchConfig svc) of None \<Rightarrow> [] | Some e \<Rightarrow> e)"
    and "R = (case environment req of None \<Rightarrow> [] | Some e \<Rightarrow> e)"
    and "distinct (map fst R)"
  shows "\<exists>p E'. submitted (calls (snd (inServiceUpgrade cfg (Some req) w)))
                = submitted (calls w) @ [p]
     \<and> lc_environment (st_launchConfig p) = Some E'
     \<and> fst ` set E' =
         fst ` set E \<union>
         (fst ` set R - (if ''__proto__'' \<in> fst ` set E then {} else {''__proto__''}))
     \<and> (\<forall>k v. (k, v) \<in> set R \<and> (k \<noteq> ''__proto__'' \<or> k \<in> fst ` set E)
            \<longrightarrow> map_of E' k = Some v)
     \<and> (\<forall>k. k \<notin> fst ` set R \<longrightarrow> map_of E' k = map_of E k)"
proof -
  let ?p = "upgradePayload req repo svc"
  have "lc_environment (st_launchConfig ?p) = Some (object_assign E R)"
    by (simp add: upgradePayload_def merged_environment_def assms(9,10))
  moreover have "map_of (object_assign E R) k = Some v"
    if h: "(k, v) \<in> set R \<and> (k \<noteq> ''__proto__'' \<or> k \<in> fst ` set E)" for k v
  proof -
    from h assms(11) have "map_of R k = Some v" by simp
    moreover from h have "\<not> (k = ''__proto__'' \<and> k \<notin> fst ` set E)" by blast
    ultimately show ?thesis using assms(11) by (simp add: object_assign_lookup)
  qed
  moreover have "map_of (object_assign E R) k = map_of E k" if "k \<notin> fst ` set R" for k
  proof -
    from that have "map_of R k = None" by (simp add: map_of_eq_None_iff)
    then show ?thesis using assms(11) by (simp add: object_assign_lookup)
  qed
  ultimately show ?thesis
    using inServiceUpgrade_submitted [OF assms(1-8), of cfg] object_assign_keys [of E R]
    by blast
qed

theorem submitted_environment_witness:
  "map (\<lambda>p. lc_environment (st_launchConfig p))
     (submitted (calls (snd (inServiceUpgrade ex_cfg (Some ex_req)
        (at_start [found [ex_svc ''active'']])))))
     = [Some [(''A'', JNum 1), (''B'', JNum 3), (''C'', JNum 4)]]"
proof -
  let ?w = "at_start [found [ex_svc ''active'']]"
  have v: "serviceName ex_req = Some ''web''" "''web'' \<noteq> []"
      "imageRepo ex_req = Some ''org/app''" "''org/app'' \<noteq> []"
    by (simp_all add: ex_req_def)
  have s: "script ?w = found [ex_svc ''active''] # []"
    and r: "response (found [ex_svc ''active'']) = Body (Collection (ex_svc ''active'' # []))"
    and a: "state (ex_svc ''active'') = ''active''
            \<or> truthy (map_of (actions (ex_svc ''active'')) ''upgrade'')"
    and u: "map_of (actions (ex_svc ''active'')) ''upgrade''
            = Some ''http://rancher/v1/services/1/?action=upgrade''"
    and e: "[(''A'', JNum 1), (''B'', JNum 2)]
            = (case lc_environment (launchConfig (ex_svc ''active'')) of
                 None \<Rightarrow> [] | Some e \<Rightarrow> e)"
    and q: "[(''B'', JNum 3), (''C'', JNum 4)]
            = (case environment ex_req of None \<Rightarrow> [] | Some e \<Rightarrow> e)"
    and d: "distinct (map fst [(''B'', JNum 3), (''C'', JNum 4)])"
    by (simp_all add: at_start_def found_def ex_svc_def ex_req_def)
  from submitted_environment [OF v s r a u e q d, of ex_cfg]
  show ?thesis by (simp add: run_defs)
qed

text \<open>
  C10. The rollout settings of the submitted payload are the ones the request supplies,
  whatever their values (0 and \<open>False\<close> included); 1, 30000 and \<open>True\<close> stand in
  only for a setting that is missing.
\<close>

theorem rollout_settings_preserved:
  assumes "serviceName req = Some nm" and "nm \<noteq> []"
    and "imageRepo req = Some repo" and "repo \<noteq> []"
    and "script w = r # rs" and "response r = Body (Collection (svc # others))"
    and "state svc = ''active'' \<or> truthy (map_of (actions svc) ''upgrade'')"
    and "map_of (actions svc) ''upgrade'' = Some u"
  shows "\<exists>p. submitted (calls (snd (inServiceUpgrade cfg (Some req) w)))
                = submitted (calls w) @ [p]
     \<and> (\<forall>b. batchSize req = Some b \<longrightarrow> st_batchSize p = b)
     \<and> (\<forall>i. intervalMillis req = Some i \<longrightarrow> st_intervalMillis p = i)
     \<and> (\<forall>f. startFirst req = Some f \<longrightarrow> st_startFirst p = f)
     \<and> (batchSize req = None \<longrightarrow> st_batchSize p = 1)
     \<and> (intervalMillis req = None \<longrightarrow> st_intervalMillis p = 30000)
     \<and> (startFirst req = None \<longrightarrow> st_startFirst p)"
  using inServiceUpgrade_submitted [OF assms, of cfg]
  by (auto simp: upgradePayload_def)

theorem rollout_settings_preserved_witness:
  "map (\<lambda>p. (st_batchSize p, st_intervalMillis p, st_startFirst p))
     (submitted (calls (snd (inServiceUpgrade ex_cfg
        (Some (ex_req\<lparr>batchSize := Some 0, intervalMillis := Some 0, startFirst := Some False\<rparr>))
        (at_start [found [ex_svc ''active'']])))))
     = [(0, 0, False)]
   \<and> map (\<lambda>p. (st_batchSize p, st_intervalMillis p, st_startFirst p))
     (submitted (calls (snd (inServiceUpgrade ex_cfg (Some ex_req)
        (at_start [found [ex_svc ''active'']])))))
     = [(1, 30000, True)]"
proof -
  let ?w = "at_start [found [ex_svc ''active'']]"
  let ?q = "ex_req\<lparr>batchSize := Some 0, intervalMillis := Some 0, startFirst := Some False\<rparr>"
  have v: "serviceName ex_req = Some ''web''" "''web'' \<noteq> []"
      "imageRepo ex_req = Some ''org/app''" "''org/app'' \<noteq> []"
    and v': "serviceName ?q = Some ''web''" "imageRepo ?q = Some ''org/app''"
    by (simp_all add: ex_req_def)
  have s: "script ?w = found [ex_svc ''active''] # []"
    and r: "response (found [ex_svc ''active'']) = Body (Collection (ex_svc ''active'' # []))"
    and a: "state (ex_svc ''active'') = ''active''
            \<or> truthy (map_of (actions (ex_svc ''active'')) ''upgrade'')"
    and u: "map_of (actions (ex_svc ''active'')) ''upgrade''
            = Some ''http://rancher/v1/services/1/?action=upgrade''"
    by (simp_all add: at_start_def found_def ex_svc_def)
  from rollout_settings_preserved [OF v'(1) v(2) v'(2) v(4) s r a u, of ex_cfg]
       rollout_settings_preserved [OF v s r a u, of ex_cfg]
  show ?thesis by (simp add: run_defs)
qed

section \<open>Runs of the scenario\<close>

text \<open>
  The end-to-end scenario: the directory reports \<open>active\<close>, \<open>upgrading\<close>,
  \<open>upgraded\<close> and \<open>active\<close> on successive lookups. One upgrade is submitted, with
  the image \<open>docker:org/app:v2\<close>, one \<open>finishupgrade\<close> follows, and the
  descriptor returned is active.
\<close>

lemma end_to_end_scenario:
  "fst (inServiceUpgrade ex_cfg (Some ex_req)
     (at_start [found [ex_svc ''active''], ack (ex_svc ''upgrading''),
                found [ex_svc ''upgrading''], found [ex_svc ''upgraded''],
                ack (ex_svc ''upgraded''), found [ex_svc ''active'']]))
     = Resolved (ex_svc ''active'')
   \<and> map (\<lambda>c. (c_method c, c_uri c, c_time c))
       (calls (snd (inServiceUpgrade ex_cfg (Some ex_req)
         (at_start [found [ex_svc ''active''], ack (ex_svc ''upgrading''),
                found [ex_svc ''upgrading''], found [ex_svc ''upgraded''],
                ack (ex_svc ''upgraded''), found [ex_svc ''active'']]))))
     = [(GET, ''http://rancher/v1/services'', 1000),
        (POST, ''http://rancher/v1/services/1/?action=upgrade'', 1100),
        (GET, ''http://rancher/v1/services'', 1200),
        (GET, ''http://rancher/v1/services'', 21300),
        (POST, ''http://rancher/v1/services/1/?action=finishupgrade'', 21400),
        (GET, ''http://rancher/v1/services'', 21500)]
   \<and> map (\<lambda>p. imageUuid (st_launchConfig p))
       (submitted (calls (snd (inServiceUpgrade ex_cfg (Some ex_req)
         (at_start [found [ex_svc ''active''], ack (ex_svc ''upgrading''),
                found [ex_svc ''upgrading''], found [ex_svc ''upgraded''],
                ack (ex_svc ''upgraded''), found [ex_svc ''active'']])))))
     = [''docker:org/app:v2'']"
  by (simp add: run_defs)

text \<open>
  The observed states \<open>upgrading\<close>, \<open>upgrading\<close>, \<open>upgraded\<close> lead to exactly
  one \<open>finishupgrade\<close>.
\<close>

lemma upgrading_twice_then_upgraded:
  "map c_uri (posts (calls (snd (waitForUpgrade ex_cfg ''web'' None
     (at_start [found [ex_svc ''upgrading''], found [ex_svc ''upgrading''],
                found [ex_svc ''upgraded''], ack (ex_svc ''upgraded''),
                found [ex_svc ''active'']])))))
     = [''http://rancher/v1/services/1/?action=finishupgrade'']"
  by (simp add: run_defs posts_def)

text \<open>
  What the empty result of a failed request does further on. The callback after the
  submission reads \<^verbatim>\<open>result.state\<close> and throws; the callback after
  \<^verbatim>\<open>finishupgrade\<close> does not look at its result, and the session goes on.
\<close>

lemma failed_submission:
  "fst (inServiceUpgrade ex_cfg (Some ex_req)
     (at_start [found [ex_svc ''active''], failure, found [ex_svc ''upgraded'']]))
     = Rejected TypeError"
  by (simp add: run_defs)

lemma failed_finishupgrade:
  "fst (inServiceUpgrade ex_cfg (Some ex_req)
     (at_start [found [ex_svc ''active''], ack (ex_svc ''upgrading''),
                found [ex_svc ''upgraded''], failure, found [ex_svc ''active'']]))
     = Resolved (ex_svc ''active'')"
  by (simp add: run_defs)

end
